theory Spec2Isabelle
  imports Main
begin

section \<open>Data model (src/types.ts)\<close>

text \<open>
  The relationship engine of the family-tree application reads a flat array of
  \<open>Person\<close> records. Identifiers are JavaScript strings; optional fields
  (\<open>parentIds?\<close>, \<open>marriages?\<close>, \<open>childrenIds?\<close>, \<open>lastName?\<close>,
  \<open>familyCast?\<close>) are options. The field \<open>id\<close> of the source is written
  \<open>id_of\<close> here, since \<open>id\<close> is the identity function of HOL. The purely
  biographical fields (birth and death data, photos, notes, contact data) are never read
  by the engine and are left out of the record.
\<close>

datatype Gender = Male | Female | Other

datatype MarriageStatus = Married | Divorced | Widowed | Unknown

record Marriage =
  spouseId :: string
  date :: "string option"
  place :: "string option"
  status :: MarriageStatus

record Person =
  id_of :: string
  firstName :: string
  lastName :: "string option"
  familyCast :: "string option"
  gender :: Gender
  parentIds :: "string list option"
  marriages :: "Marriage list option"
  childrenIds :: "string list option"
  isAdopted :: "bool option"

text \<open>
  \<open>orEmpty xs\<close> is the idiom \<open>(xs || [])\<close> of the source; an absent list guarded by
  \<open>?.\<close> or by \<open>if (p.parentIds)\<close> is iterated as the empty list as well (an empty
  array is truthy, and iterating it does nothing).
\<close>

definition orEmpty :: "'a list option \<Rightarrow> 'a list" where
  "orEmpty xs = (case xs of None \<Rightarrow> [] | Some ys \<Rightarrow> ys)"

text \<open>\<open>allPeople.find(p => p.id === id)\<close>: the first record with that id.\<close>

fun getPersonById :: "string \<Rightarrow> Person list \<Rightarrow> Person option" where
  "getPersonById i [] = None"
| "getPersonById i (p # ps) = (if id_of p = i then Some p else getPersonById i ps)"

text \<open>\<open>p.marriages?.some(m => m.spouseId === x)\<close>.\<close>

definition marriedTo :: "Person \<Rightarrow> string \<Rightarrow> bool" where
  "marriedTo p x = list_ex (\<lambda>m. spouseId m = x) (orEmpty (marriages p))"

section \<open>JavaScript primitives used by the kinship namer\<close>

datatype JsError = RangeError | TypeError

text \<open>\<open>String(n)\<close> for an integer: its decimal digits, with a minus sign below zero.\<close>

definition digit :: "nat \<Rightarrow> char" where
  "digit k = ''0123456789'' ! k"

fun string_of_nat :: "nat \<Rightarrow> string" where
  "string_of_nat n = (if n < 10 then [digit n] else string_of_nat (n div 10) @ [digit (n mod 10)])"

definition js_String :: "int \<Rightarrow> string" where
  "js_String n = (if n < 0 then CHR ''-'' # string_of_nat (nat (- n)) else string_of_nat (nat n))"

text \<open>The remainder operator \<open>%\<close> truncates towards zero: the sign is the dividend's.\<close>

definition js_rem :: "int \<Rightarrow> int \<Rightarrow> int" where
  "js_rem a b = sgn a * (\<bar>a\<bar> mod \<bar>b\<bar>)"

text \<open>Reading an array at a number: \<open>undefined\<close> (here \<open>None\<close>) outside the array.\<close>

definition js_index :: "'a list \<Rightarrow> int \<Rightarrow> 'a option" where
  "js_index xs i = (if 0 \<le> i \<and> i < int (length xs) then Some (xs ! nat i) else None)"

text \<open>\<open>s.repeat(count)\<close> throws a RangeError on a negative count.\<close>

definition js_repeat :: "string \<Rightarrow> int \<Rightarrow> JsError + string" where
  "js_repeat s n = (if n < 0 then Inl RangeError else Inr (concat (replicate (nat n) s)))"

section \<open>Kinship namer (src/utils/relationshipUtils.ts)\<close>

definition ordinal :: "int \<Rightarrow> string" where
  "ordinal n =
     (if n \<le> 0 then js_String n
      else
        let s = [''th'', ''st'', ''nd'', ''rd''];
            v = js_rem n 100
        in js_String n @
           (case js_index s (js_rem (v - 20) 10) of
              Some t \<Rightarrow> t
            | None \<Rightarrow> (case js_index s v of Some t \<Rightarrow> t | None \<Rightarrow> s ! 0)))"

text \<open>
  \<open>describeBloodRelationship\<close> describes person2's relationship to person1 from the
  lowest common ancestor and the two paths to it. The parameters \<open>lca\<close>, \<open>path1\<close>,
  \<open>path2\<close> of the source are written \<open>anc\<close>, \<open>pathA\<close>, \<open>pathB\<close>.
\<close>

definition describeBloodRelationship ::
  "Person \<Rightarrow> Person \<Rightarrow> Person \<Rightarrow> Person list \<Rightarrow> Person list \<Rightarrow> JsError + string" where
  "describeBloodRelationship person1 person2 anc pathA pathB =
     (let d1 = int (length pathA) - 1;
          d2 = int (length pathB) - 1
      in
      if id_of anc = id_of person1 then
        (let d = d2 in
         if d = 0 then Inr ''Self''
         else if d = 1 then
           Inr (if gender person2 = Male then ''Son''
                else if gender person2 = Female then ''Daughter'' else ''Child'')
         else if d = 2 then
           Inr (if gender person2 = Male then ''Grandson''
                else if gender person2 = Female then ''Granddaughter'' else ''Grandchild'')
         else
           (case js_repeat ''Great-'' (d - 2) of
              Inl e \<Rightarrow> Inl e
            | Inr prefix \<Rightarrow>
                Inr (prefix @
                  (if gender person2 = Male then ''Grandson''
                   else if gender person2 = Female then ''Granddaughter'' else ''Grandchild''))))
      else if id_of anc = id_of person2 then
        (let d = d1 in
         if d = 0 then Inr ''Self''
         else if d = 1 then
           Inr (if gender person2 = Male then ''Father''
                else if gender person2 = Female then ''Mother'' else ''Parent'')
         else if d = 2 then
           Inr (if gender person2 = Male then ''Grandfather''
                else if gender person2 = Female then ''Grandmother'' else ''Grandparent'')
         else
           (case js_repeat ''Great-'' (d - 2) of
              Inl e \<Rightarrow> Inl e
            | Inr prefix \<Rightarrow>
                Inr (prefix @
                  (if gender person2 = Male then ''Grandfather''
                   else if gender person2 = Female then ''Grandmother'' else ''Grandparent''))))
      else if d1 = 1 \<and> d2 = 1 then
        Inr (if gender person2 = Male then ''Brother''
             else if gender person2 = Female then ''Sister'' else ''Sibling'')
      else
        (let cousinLevel = min d1 d2 - 1;
             removalLevel = \<bar>d1 - d2\<bar>
         in
         if cousinLevel = 0 then
           (let prefix = (if removalLevel > 1 then ''Grand'' else '''') in
            if d1 < d2 then
              (let relation = (if gender person2 = Male then ''nephew''
                               else if gender person2 = Female then ''niece''
                               else ''nephew/niece'')
               in Inr (prefix @ relation))
            else
              (let relation = (if gender person2 = Male then ''uncle''
                               else if gender person2 = Female then ''aunt''
                               else ''aunt/uncle'')
               in Inr (prefix @ relation)))
         else
           (let cousinTerm = ordinal cousinLevel;
                removalTerm =
                  (if removalLevel > 0 then
                     '', '' @
                     (if removalLevel = 1 then ''once''
                      else if removalLevel = 2 then ''twice''
                      else js_String removalLevel @ '' times'') @
                     '' removed''
                   else '''')
            in Inr (cousinTerm @ '' cousin'' @ removalTerm))))"

section \<open>Lowest common ancestor (findLcaAndPaths)\<close>

text \<open>
  The object \<open>{lca, path1, path2}\<close> returned by \<open>findLcaAndPaths\<close>.
\<close>

record LcaResult =
  lca :: Person
  path1 :: "Person list"
  path2 :: "Person list"

text \<open>
  Every id that occurs in some \<open>parentIds\<close> of the collection: the finite universe in
  which the visited-sets of the upward traversals grow. It is used by the termination
  proofs only.
\<close>

definition parentIdsIn :: "Person list \<Rightarrow> string set" where
  "parentIdsIn allPeople = (\<Union>p \<in> set allPeople. set (orEmpty (parentIds p)))"

text \<open>
  \<open>getPerson(id)?.parentIds\<close> read as a list to iterate: empty when the person is
  missing or has no \<open>parentIds\<close>.
\<close>

definition parentsOfId :: "string \<Rightarrow> Person list \<Rightarrow> string list" where
  "parentsOfId personId allPeople =
     (case getPersonById personId allPeople of
        None \<Rightarrow> []
      | Some person \<Rightarrow> orEmpty (parentIds person))"

text \<open>
  \<open>getPathToAncestor\<close>: breadth-first search from \<open>startId\<close> up to \<open>endId\<close>.
  \<open>getPathToAncestor_parents\<close> is the inner \<open>for\<close> loop over the parents of the
  dequeued person: \<open>Inl\<close> is its early \<open>return newPath\<close>, \<open>Inr\<close> carries the
  visited-set and the queue on to the next iteration of the \<open>while\<close> loop
  (\<open>getPathToAncestor_loop\<close>).
\<close>

fun getPathToAncestor_parents ::
  "Person list \<Rightarrow> string \<Rightarrow> Person list \<Rightarrow> string list \<Rightarrow> string set \<Rightarrow>
   (string \<times> Person list) list \<Rightarrow> Person list + (string set \<times> (string \<times> Person list) list)" where
  "getPathToAncestor_parents allPeople endId path [] visited queue = Inr (visited, queue)"
| "getPathToAncestor_parents allPeople endId path (parentId # rest) visited queue =
     (if parentId \<in> visited then
        getPathToAncestor_parents allPeople endId path rest visited queue
      else
        (case getPersonById parentId allPeople of
           None \<Rightarrow>
             getPathToAncestor_parents allPeople endId path rest (insert parentId visited) queue
         | Some parentPerson \<Rightarrow>
             (let newPath = path @ [parentPerson] in
              if parentId = endId then Inl newPath
              else getPathToAncestor_parents allPeople endId path rest
                     (insert parentId visited) (queue @ [(parentId, newPath)]))))"

function getPathToAncestor_loop ::
  "Person list \<Rightarrow> string \<Rightarrow> (string \<times> Person list) list \<Rightarrow> string set \<Rightarrow> Person list option" where
  "getPathToAncestor_loop allPeople endId [] visited = None"
| "getPathToAncestor_loop allPeople endId ((personId, path) # queue) visited =
     (case getPathToAncestor_parents allPeople endId path (parentsOfId personId allPeople)
             visited queue of
        Inl newPath \<Rightarrow> Some newPath
      | Inr (visited', queue') \<Rightarrow> getPathToAncestor_loop allPeople endId queue' visited')"
  by pat_completeness auto

definition getPathToAncestor :: "Person list \<Rightarrow> string \<Rightarrow> string \<Rightarrow> Person list option" where
  "getPathToAncestor allPeople startId endId =
     (case getPersonById startId allPeople of
        None \<Rightarrow> None
      | Some startPerson \<Rightarrow>
          if startId = endId then Some [startPerson]
          else getPathToAncestor_loop allPeople endId [(startId, [startPerson])] {startId})"

text \<open>
  The first \<open>while\<close> loop of \<open>findLcaAndPaths\<close>: the map \<open>p1Ancestors\<close> of
  person1 and all of person1's ancestors.
\<close>

function findLcaAndPaths_ancestors ::
  "Person list \<Rightarrow> string list \<Rightarrow> string set \<Rightarrow> (string \<rightharpoonup> Person) \<Rightarrow> (string \<rightharpoonup> Person)" where
  "findLcaAndPaths_ancestors allPeople [] visited1 p1Ancestors = p1Ancestors"
| "findLcaAndPaths_ancestors allPeople (currentId # queue1) visited1 p1Ancestors =
     (if currentId \<in> visited1 then
        findLcaAndPaths_ancestors allPeople queue1 visited1 p1Ancestors
      else
        (case getPersonById currentId allPeople of
           None \<Rightarrow>
             findLcaAndPaths_ancestors allPeople queue1 (insert currentId visited1) p1Ancestors
         | Some person \<Rightarrow>
             findLcaAndPaths_ancestors allPeople (queue1 @ orEmpty (parentIds person))
               (insert currentId visited1) (p1Ancestors(currentId \<mapsto> person))))"
  by pat_completeness auto

text \<open>
  The second \<open>while\<close> loop: breadth-first upwards from person2.
  \<open>findLcaAndPaths_hit\<close> is the block guarded by \<open>p1Ancestors.has(currentId)\<close>
  (it returns only when both paths are found), \<open>findLcaAndPaths_enqueue\<close> the
  \<open>for\<close> loop that enqueues the unvisited parents.
\<close>

definition findLcaAndPaths_hit ::
  "Person list \<Rightarrow> string \<Rightarrow> string \<Rightarrow> (string \<rightharpoonup> Person) \<Rightarrow> string \<Rightarrow> LcaResult option" where
  "findLcaAndPaths_hit allPeople person1Id person2Id p1Ancestors currentId =
     (case p1Ancestors currentId of
        None \<Rightarrow> None
      | Some anc \<Rightarrow>
          (case getPathToAncestor allPeople person1Id (id_of anc) of
             None \<Rightarrow> None
           | Some pathA \<Rightarrow>
               (case getPathToAncestor allPeople person2Id (id_of anc) of
                  None \<Rightarrow> None
                | Some pathB \<Rightarrow> Some \<lparr>lca = anc, path1 = pathA, path2 = pathB\<rparr>)))"

fun findLcaAndPaths_enqueue ::
  "string list \<Rightarrow> string set \<Rightarrow> string list \<Rightarrow> string set \<times> string list" where
  "findLcaAndPaths_enqueue [] visited2 queue2 = (visited2, queue2)"
| "findLcaAndPaths_enqueue (parentId # rest) visited2 queue2 =
     (if parentId \<in> visited2 then findLcaAndPaths_enqueue rest visited2 queue2
      else findLcaAndPaths_enqueue rest (insert parentId visited2) (queue2 @ [parentId]))"

function findLcaAndPaths_search ::
  "Person list \<Rightarrow> string \<Rightarrow> string \<Rightarrow> (string \<rightharpoonup> Person) \<Rightarrow> string list \<Rightarrow> string set \<Rightarrow>
   LcaResult option" where
  "findLcaAndPaths_search allPeople person1Id person2Id p1Ancestors [] visited2 = None"
| "findLcaAndPaths_search allPeople person1Id person2Id p1Ancestors (currentId # queue2) visited2 =
     (case findLcaAndPaths_hit allPeople person1Id person2Id p1Ancestors currentId of
        Some result \<Rightarrow> Some result
      | None \<Rightarrow>
          (case findLcaAndPaths_enqueue (parentsOfId currentId allPeople) visited2 queue2 of
             (visited2', queue2') \<Rightarrow>
               findLcaAndPaths_search allPeople person1Id person2Id p1Ancestors queue2' visited2'))"
  by pat_completeness auto

definition findLcaAndPaths :: "string \<Rightarrow> string \<Rightarrow> Person list \<Rightarrow> LcaResult option" where
  "findLcaAndPaths person1Id person2Id allPeople =
     (let p1Ancestors = findLcaAndPaths_ancestors allPeople [person1Id] {} Map.empty
      in findLcaAndPaths_search allPeople person1Id person2Id p1Ancestors [person2Id] {person2Id})"

section \<open>Relationship results and the generic path finder\<close>

text \<open>
  The tagged union \<open>Relationship\<close>: \<open>Blood description path1 path2 lca\<close>,
  \<open>PathRel description path\<close> and \<open>NoneRel description\<close> stand for the object
  types tagged \<open>'blood'\<close>, \<open>'path'\<close> and \<open>'none'\<close>.
\<close>

datatype Relationship =
    Blood (description: string) "Person list" "Person list" Person
  | PathRel (description: string) "Person list"
  | NoneRel (description: string)

fun js_join :: "string \<Rightarrow> string list \<Rightarrow> string" where
  "js_join sep [] = ''''"
| "js_join sep [x] = x"
| "js_join sep (x # y # ys) = x @ sep @ js_join sep (y # ys)"

text \<open>\<open>filter(Boolean)\<close> drops the absent and the empty strings.\<close>

definition getFullName :: "Person \<Rightarrow> string" where
  "getFullName person =
     js_join '' ''
       (List.map_filter (\<lambda>x. case x of None \<Rightarrow> None | Some s \<Rightarrow> if s = [] then None else Some s)
          [Some (firstName person), lastName person, familyCast person])"

definition getPathSegmentDescription :: "Person \<Rightarrow> Person \<Rightarrow> string" where
  "getPathSegmentDescription p1 p2 =
     (if id_of p2 \<in> set (orEmpty (childrenIds p1)) then
        (if gender p1 = Male then ''is the father of''
         else if gender p1 = Female then ''is the mother of'' else ''is the parent of'')
      else if id_of p2 \<in> set (orEmpty (parentIds p1)) then
        (if gender p1 = Male then ''is the son of''
         else if gender p1 = Female then ''is the daughter of'' else ''is the child of'')
      else if marriedTo p1 (id_of p2) then
        (if gender p1 = Male then ''is the husband of''
         else if gender p1 = Female then ''is the wife of'' else ''is the spouse of'')
      else ''is related to'')"

text \<open>
  The \<open>for\<close> loop of \<open>generatePathDescription\<close>: the text appended for the segments
  from index \<open>i\<close> on, the argument being \<open>path.slice(i)\<close>.
\<close>

fun generatePathDescription_segments :: "nat \<Rightarrow> Person list \<Rightarrow> string" where
  "generatePathDescription_segments i (p1 # p2 # rest) =
     (if i > 0 then '', who '' else '' '') @
     getPathSegmentDescription p1 p2 @ '' '' @ getFullName p2 @
     generatePathDescription_segments (Suc i) (p2 # rest)"
| "generatePathDescription_segments i [p1] = ''''"
| "generatePathDescription_segments i [] = ''''"

definition generatePathDescription :: "Person list \<Rightarrow> string" where
  "generatePathDescription path =
     (if length path < 2 then ''They are the same person.''
      else getFullName (hd path) @ generatePathDescription_segments 0 path @ ''.'')"

definition neighborsOf :: "Person \<Rightarrow> string list" where
  "neighborsOf currentPerson =
     orEmpty (parentIds currentPerson) @ orEmpty (childrenIds currentPerson) @
     map spouseId (orEmpty (marriages currentPerson))"

text \<open>The \<open>for\<close> loop over the neighbours of the dequeued person.\<close>

fun findGenericPath_neighbors ::
  "Person list \<Rightarrow> Person list \<Rightarrow> string list \<Rightarrow> string set \<Rightarrow> (string \<times> Person list) list \<Rightarrow>
   string set \<times> (string \<times> Person list) list" where
  "findGenericPath_neighbors allPeople path [] visited queue = (visited, queue)"
| "findGenericPath_neighbors allPeople path (neighborId # rest) visited queue =
     (if neighborId \<in> visited then findGenericPath_neighbors allPeople path rest visited queue
      else
        (case getPersonById neighborId allPeople of
           None \<Rightarrow> findGenericPath_neighbors allPeople path rest (insert neighborId visited) queue
         | Some neighborPerson \<Rightarrow>
             findGenericPath_neighbors allPeople path rest (insert neighborId visited)
               (queue @ [(neighborId, path @ [neighborPerson])])))"

text \<open>
  The \<open>while\<close> loop of \<open>findGenericPath\<close>. \<open>path[path.length - 1]\<close> of an empty
  path is \<open>undefined\<close>, and reading its \<open>parentIds\<close> throws a TypeError.
\<close>

function findGenericPath_loop ::
  "Person list \<Rightarrow> Person \<Rightarrow> (string \<times> Person list) list \<Rightarrow> string set \<Rightarrow>
   JsError + Relationship option" where
  "findGenericPath_loop allPeople person2 [] visited = Inr None"
| "findGenericPath_loop allPeople person2 ((personId, path) # queue) visited =
     (if personId = id_of person2 then Inr (Some (PathRel (generatePathDescription path) path))
      else if path = [] then Inl TypeError
      else
        (case findGenericPath_neighbors allPeople path (neighborsOf (last path)) visited queue of
           (visited', queue') \<Rightarrow> findGenericPath_loop allPeople person2 queue' visited'))"
  by pat_completeness auto

text \<open>
  The ids a traversal over all edge kinds can still meet: the neighbours of the people of
  the collection and of the last person of every queued path (termination proof only).
\<close>

definition neighborIdsIn :: "Person list \<Rightarrow> string set" where
  "neighborIdsIn allPeople = (\<Union>p \<in> set allPeople. set (neighborsOf p))"

definition queueNeighborIds :: "(string \<times> Person list) list \<Rightarrow> string set" where
  "queueNeighborIds queue =
     (\<Union>(personId, path) \<in> set queue. if path = [] then {} else set (neighborsOf (last path)))"

definition findGenericPath :: "Person \<Rightarrow> Person \<Rightarrow> Person list \<Rightarrow> JsError + Relationship option" where
  "findGenericPath person1 person2 allPeople =
     findGenericPath_loop allPeople person2 [(id_of person1, [person1])] {id_of person1}"

section \<open>findRelationship\<close>

text \<open>
  The body of the loop over person2's marriages (step C): \<open>Inr (Some r)\<close> is the
  \<open>return\<close> inside the loop, \<open>Inr None\<close> lets the loop go on to the next marriage.
\<close>

definition findRelationship_inLaw ::
  "string \<Rightarrow> Person \<Rightarrow> Person \<Rightarrow> Person list \<Rightarrow> Marriage \<Rightarrow> JsError + Relationship option" where
  "findRelationship_inLaw person1Id person1 person2 allPeople marriage =
     (case getPersonById (spouseId marriage) allPeople of
        None \<Rightarrow> Inr None
      | Some spouseOfPerson2 \<Rightarrow>
          (case findLcaAndPaths person1Id (id_of spouseOfPerson2) allPeople of
             None \<Rightarrow> Inr None
           | Some bloodResult \<Rightarrow>
               if id_of (lca bloodResult) = person1Id then
                 (let generation = int (length (path2 bloodResult)) - 1 in
                  case
                    (if gender person2 = Female then
                       (if generation = 1 then Inr ''Son's Wife (Bahu)''
                        else if generation = 2 then Inr ''Grandson's Wife (Bahu)''
                        else if generation > 2 then
                          (case js_repeat ''Great-'' (generation - 2) of
                             Inl e \<Rightarrow> Inl e
                           | Inr prefix \<Rightarrow> Inr (prefix @ ''Grandson's Wife (Bahu)''))
                        else Inr '''')
                     else if gender person2 = Male then
                       (if generation = 1 then Inr ''Daughter's Husband (Damad)''
                        else if generation = 2 then Inr ''Granddaughter's Husband (Damad)''
                        else if generation > 2 then
                          (case js_repeat ''Great-'' (generation - 2) of
                             Inl e \<Rightarrow> Inl e
                           | Inr prefix \<Rightarrow> Inr (prefix @ ''Granddaughter's Husband (Damad)''))
                        else Inr '''')
                     else Inr '''')
                  of
                    Inl e \<Rightarrow> Inl e
                  | Inr desc \<Rightarrow>
                      if desc = '''' then Inr None
                      else Inr (Some (PathRel desc [person1, spouseOfPerson2, person2])))
               else Inr None))"

fun findRelationship_inLaws ::
  "string \<Rightarrow> Person \<Rightarrow> Person \<Rightarrow> Person list \<Rightarrow> Marriage list \<Rightarrow> JsError + Relationship option" where
  "findRelationship_inLaws person1Id person1 person2 allPeople [] = Inr None"
| "findRelationship_inLaws person1Id person1 person2 allPeople (marriage # rest) =
     (case findRelationship_inLaw person1Id person1 person2 allPeople marriage of
        Inl e \<Rightarrow> Inl e
      | Inr (Some result) \<Rightarrow> Inr (Some result)
      | Inr None \<Rightarrow> findRelationship_inLaws person1Id person1 person2 allPeople rest)"

text \<open>
  \<open>findRelationship\<close>: \<open>Inr None\<close> is the \<open>null\<close> of the source, \<open>Inl e\<close> an
  exception thrown by a callee.
\<close>

definition findRelationship :: "string \<Rightarrow> string \<Rightarrow> Person list \<Rightarrow> JsError + Relationship option" where
  "findRelationship person1Id person2Id allPeople =
     (if person1Id = [] \<or> person2Id = [] \<or> person1Id = person2Id then Inr None
      else
        (case getPersonById person1Id allPeople of
           None \<Rightarrow> Inr None
         | Some person1 \<Rightarrow>
             (case getPersonById person2Id allPeople of
                None \<Rightarrow> Inr None
              | Some person2 \<Rightarrow>
                  if marriedTo person1 person2Id then
                    (let relation = (if gender person2 = Male then ''Husband''
                                     else if gender person2 = Female then ''Wife'' else ''Spouse'')
                     in Inr (Some (PathRel relation [person1, person2])))
                  else
                    (case findLcaAndPaths person1Id person2Id allPeople of
                       Some lcaResult \<Rightarrow>
                         (case describeBloodRelationship person1 person2 (lca lcaResult)
                                 (path1 lcaResult) (path2 lcaResult) of
                            Inl e \<Rightarrow> Inl e
                          | Inr desc \<Rightarrow>
                              Inr (Some (Blood desc (path1 lcaResult) (path2 lcaResult)
                                           (lca lcaResult))))
                     | None \<Rightarrow>
                         (case findRelationship_inLaws person1Id person1 person2 allPeople
                                 (orEmpty (marriages person2)) of
                            Inl e \<Rightarrow> Inl e
                          | Inr (Some result) \<Rightarrow> Inr (Some result)
                          | Inr None \<Rightarrow>
                              (case findGenericPath person1 person2 allPeople of
                                 Inl e \<Rightarrow> Inl e
                               | Inr (Some pathResult) \<Rightarrow> Inr (Some pathResult)
                               | Inr None \<Rightarrow>
                                   Inr (Some (NoneRel ''No relationship path could be found.''))))))))"

section \<open>Ancestor and descendant walks\<close>

text \<open>
  The \<open>while\<close> loops of \<open>getAncestors\<close>, \<open>getDescendants\<close> and
  \<open>getAncestorsHierarchically\<close> are defined without any commitment to their
  termination: a run that does not return is the value \<open>None\<close>.
\<close>

partial_function (option) getAncestors_loop ::
  "Person list \<Rightarrow> string list \<Rightarrow> string set \<Rightarrow> Person list \<Rightarrow> Person list option" where
  "getAncestors_loop allPeople queue visited ancestors =
     (case queue of
        [] \<Rightarrow> Some ancestors
      | personId # rest \<Rightarrow>
          if personId \<in> visited \<or> personId = [] then
            getAncestors_loop allPeople rest visited ancestors
          else
            (case getPersonById personId allPeople of
               None \<Rightarrow> getAncestors_loop allPeople rest (insert personId visited) ancestors
             | Some p \<Rightarrow>
                 getAncestors_loop allPeople
                   (rest @ filter (\<lambda>parentId. parentId \<notin> insert personId visited)
                             (orEmpty (parentIds p)))
                   (insert personId visited) (ancestors @ [p])))"

definition getAncestors :: "Person \<Rightarrow> Person list \<Rightarrow> Person list option" where
  "getAncestors person allPeople = getAncestors_loop allPeople (orEmpty (parentIds person)) {} []"

partial_function (option) getDescendants_loop ::
  "Person list \<Rightarrow> string list \<Rightarrow> string set \<Rightarrow> Person list \<Rightarrow> Person list option" where
  "getDescendants_loop allPeople queue visited descendants =
     (case queue of
        [] \<Rightarrow> Some descendants
      | personId # rest \<Rightarrow>
          if personId \<in> visited \<or> personId = [] then
            getDescendants_loop allPeople rest visited descendants
          else
            (case getPersonById personId allPeople of
               None \<Rightarrow> getDescendants_loop allPeople rest (insert personId visited) descendants
             | Some p \<Rightarrow>
                 getDescendants_loop allPeople
                   (rest @ filter (\<lambda>childId. childId \<notin> insert personId visited)
                             (orEmpty (childrenIds p)))
                   (insert personId visited) (descendants @ [p])))"

definition getDescendants :: "Person \<Rightarrow> Person list \<Rightarrow> Person list option" where
  "getDescendants person allPeople =
     getDescendants_loop allPeople (orEmpty (childrenIds person)) {} []"

text \<open>src/utils/reportUtils.ts: the ancestor walk with levels.\<close>

partial_function (option) getAncestorsHierarchically_loop ::
  "Person list \<Rightarrow> (string \<times> nat) list \<Rightarrow> string set \<Rightarrow> (Person \<times> nat) list \<Rightarrow>
   (Person \<times> nat) list option" where
  "getAncestorsHierarchically_loop allPeople queue visited results =
     (case queue of
        [] \<Rightarrow> Some results
      | (personId, level) # rest \<Rightarrow>
          if personId = [] \<or> personId \<in> visited then
            getAncestorsHierarchically_loop allPeople rest visited results
          else
            (case getPersonById personId allPeople of
               None \<Rightarrow>
                 getAncestorsHierarchically_loop allPeople rest (insert personId visited) results
             | Some p \<Rightarrow>
                 getAncestorsHierarchically_loop allPeople
                   (rest @ map (\<lambda>parentId. (parentId, level + 1))
                             (filter (\<lambda>parentId. parentId \<notin> insert personId visited)
                                (orEmpty (parentIds p))))
                   (insert personId visited) (results @ [(p, level)])))"

definition getAncestorsHierarchically :: "Person \<Rightarrow> Person list \<Rightarrow> (Person \<times> nat) list option" where
  "getAncestorsHierarchically person allPeople =
     (case parentIds person of
        None \<Rightarrow> Some []
      | Some ps \<Rightarrow>
          getAncestorsHierarchically_loop allPeople (map (\<lambda>i. (i, 1)) ps) {} [])"

section \<open>Blood relatives and findAllRelationships\<close>

text \<open>
  A JavaScript \<open>Setof strings\<close> iterates in insertion order: it is a list without
  duplicates, and \<open>add\<close> appends an element that is not yet there.
\<close>

definition set_add :: "string list \<Rightarrow> string \<Rightarrow> string list" where
  "set_add xs x = (if x \<in> set xs then xs else xs @ [x])"

fun getAllBloodRelativesIds_loop ::
  "Person list \<Rightarrow> Person list \<Rightarrow> string list \<Rightarrow> string list option" where
  "getAllBloodRelativesIds_loop allPeople [] bloodRelatives = Some bloodRelatives"
| "getAllBloodRelativesIds_loop allPeople (progenitor # rest) bloodRelatives =
     (case getDescendants progenitor allPeople of
        None \<Rightarrow> None
      | Some descendants \<Rightarrow>
          getAllBloodRelativesIds_loop allPeople rest
            (fold (\<lambda>descendant acc. set_add acc (id_of descendant)) descendants
               (set_add bloodRelatives (id_of progenitor))))"

definition getAllBloodRelativesIds :: "Person \<Rightarrow> Person list \<Rightarrow> string list option" where
  "getAllBloodRelativesIds focalPerson allPeople =
     (case getAncestors focalPerson allPeople of
        None \<Rightarrow> None
      | Some ancestors \<Rightarrow> getAllBloodRelativesIds_loop allPeople (focalPerson # ancestors) [])"

fun isNoneRel :: "Relationship \<Rightarrow> bool" where
  "isNoneRel (NoneRel d) = True"
| "isNoneRel (PathRel d p) = False"
| "isNoneRel (Blood d p q a) = False"

definition addRelationship :: "Relationship list \<Rightarrow> Relationship \<Rightarrow> Relationship list" where
  "addRelationship relationships rel =
     (if isNoneRel rel \<or> list_ex (\<lambda>r. description r = description rel) relationships
      then relationships else relationships @ [rel])"

text \<open>
  The loop of \<open>findAllRelationships\<close> over the blood relatives of person1 (step 2).
  \<open>path1.slice(0, -1)\<close> is \<open>butlast\<close>, \<open>path2.reverse()\<close> is \<open>rev\<close> (it reverses
  the array of the freshly computed relationship in place).
\<close>

fun findAllRelationships_inLaws ::
  "string \<Rightarrow> string \<Rightarrow> Person \<Rightarrow> Person list \<Rightarrow> string list \<Rightarrow> Relationship list \<Rightarrow>
   JsError + Relationship list" where
  "findAllRelationships_inLaws person1Id person2Id person2 allPeople [] relationships =
     Inr relationships"
| "findAllRelationships_inLaws person1Id person2Id person2 allPeople (relativeId # rest)
       relationships =
     (case getPersonById relativeId allPeople of
        None \<Rightarrow>
          findAllRelationships_inLaws person1Id person2Id person2 allPeople rest relationships
      | Some bloodRelative \<Rightarrow>
          if id_of bloodRelative = person1Id then
            findAllRelationships_inLaws person1Id person2Id person2 allPeople rest relationships
          else if marriedTo bloodRelative person2Id then
            (case findRelationship person1Id (id_of bloodRelative) allPeople of
               Inl e \<Rightarrow> Inl e
             | Inr None \<Rightarrow>
                 findAllRelationships_inLaws person1Id person2Id person2 allPeople rest
                   relationships
             | Inr (Some relToBloodRelative) \<Rightarrow>
                 (let inLawDescription =
                        description relToBloodRelative @ (CHR 0x27 # ''s '') @
                        (if gender person2 = Male then ''Husband'' else ''Wife'')
                  in
                  case relToBloodRelative of
                    NoneRel d \<Rightarrow>
                      findAllRelationships_inLaws person1Id person2Id person2 allPeople rest
                        relationships
                  | Blood d pathA pathB anc \<Rightarrow>
                      (let path = butlast pathA @ rev pathB @ [person2] in
                       findAllRelationships_inLaws person1Id person2Id person2 allPeople rest
                         (if length path > 0
                          then addRelationship relationships (PathRel inLawDescription path)
                          else relationships))
                  | PathRel d path0 \<Rightarrow>
                      (let path = path0 @ [person2] in
                       findAllRelationships_inLaws person1Id person2Id person2 allPeople rest
                         (if length path > 0
                          then addRelationship relationships (PathRel inLawDescription path)
                          else relationships))))
          else
            findAllRelationships_inLaws person1Id person2Id person2 allPeople rest relationships)"

text \<open>
  The sort key \<open>getLen\<close>: a number or \<open>Infinity\<close>. \<open>compareLen a b\<close> is the sign of
  \<open>getLen(a) - getLen(b)\<close> as \<open>Array.prototype.sort\<close> reads it (\<open>NaN\<close>, the
  difference of two infinities, counts as \<open>0\<close>). The sort is stable: an insertion sort.
\<close>

datatype JsNumber = Finite int | Infinity

fun getLen :: "Relationship \<Rightarrow> JsNumber" where
  "getLen (Blood d pathA pathB anc) = Finite (int (length pathA) + int (length pathB) - 2)"
| "getLen (PathRel d path) = Finite (int (length path) - 1)"
| "getLen (NoneRel d) = Infinity"

fun js_minus_sign :: "JsNumber \<Rightarrow> JsNumber \<Rightarrow> int" where
  "js_minus_sign (Finite x) (Finite y) = sgn (x - y)"
| "js_minus_sign (Finite x) Infinity = - 1"
| "js_minus_sign Infinity (Finite y) = 1"
| "js_minus_sign Infinity Infinity = 0"

definition compareLen :: "Relationship \<Rightarrow> Relationship \<Rightarrow> int" where
  "compareLen a b = js_minus_sign (getLen a) (getLen b)"

fun insertByLen :: "Relationship \<Rightarrow> Relationship list \<Rightarrow> Relationship list" where
  "insertByLen r [] = [r]"
| "insertByLen r (x # xs) = (if compareLen r x \<le> 0 then r # x # xs else x # insertByLen r xs)"

definition sortByLen :: "Relationship list \<Rightarrow> Relationship list" where
  "sortByLen relationships = foldr insertByLen relationships []"

text \<open>
  \<open>findAllRelationships\<close>: \<open>None\<close> is a run that does not return (through the walks of
  \<open>getAllBloodRelativesIds\<close>), \<open>Some (Inl e)\<close> an exception, \<open>Some (Inr rs)\<close> the
  returned array.
\<close>

definition findAllRelationships ::
  "string \<Rightarrow> string \<Rightarrow> Person list \<Rightarrow> (JsError + Relationship list) option" where
  "findAllRelationships person1Id person2Id allPeople =
     (case getPersonById person1Id allPeople of
        None \<Rightarrow> Some (Inr [])
      | Some person1 \<Rightarrow>
          (case getPersonById person2Id allPeople of
             None \<Rightarrow> Some (Inr [])
           | Some person2 \<Rightarrow>
               if person1Id = person2Id then Some (Inr [])
               else
                 (case findRelationship person1Id person2Id allPeople of
                    Inl e \<Rightarrow> Some (Inl e)
                  | Inr primaryRel \<Rightarrow>
                      (let relationships =
                             (case primaryRel of None \<Rightarrow> [] | Some rel \<Rightarrow> addRelationship [] rel)
                       in
                       case getAllBloodRelativesIds person1 allPeople of
                         None \<Rightarrow> None
                       | Some p1BloodRelatives \<Rightarrow>
                           (case findAllRelationships_inLaws person1Id person2Id person2 allPeople
                                   p1BloodRelatives relationships of
                              Inl e \<Rightarrow> Some (Inl e)
                            | Inr relationships' \<Rightarrow>
                                if length relationships' = 0 then
                                  Some (Inr [NoneRel ''No relationship path could be found.''])
                                else Some (Inr (sortByLen relationships')))))))"

section \<open>The calls that findRelationship and findAllRelationships make\<close>

text \<open>
  The same two functions once more, now returning next to their result the calls they make,
  in the order of the source: every \<open>getPersonById\<close> call made by the function itself
  (\<open>Lookup id\<close>), and every call of a function that runs a traversal:
  \<open>findLcaAndPaths\<close>, \<open>findGenericPath\<close> and \<open>getAllBloodRelativesIds\<close> (all
  breadth-first searches of the engine, and all other lookups, happen inside these three).
\<close>

datatype Step =
    Lookup string
  | CallFindLcaAndPaths string string
  | CallFindGenericPath string string
  | CallGetAllBloodRelativesIds string

text \<open>
  Step C, one marriage of person2: line 313 looks the spouse up, line 316 calls
  \<open>findLcaAndPaths\<close> when the spouse exists.
\<close>

definition findRelationship_inLaw_steps ::
  "string \<Rightarrow> Person \<Rightarrow> Person \<Rightarrow> Person list \<Rightarrow> Marriage \<Rightarrow>
   Step list \<times> (JsError + Relationship option)" where
  "findRelationship_inLaw_steps person1Id person1 person2 allPeople marriage =
     (Lookup (spouseId marriage) #
        (case getPersonById (spouseId marriage) allPeople of
           None \<Rightarrow> []
         | Some spouseOfPerson2 \<Rightarrow> [CallFindLcaAndPaths person1Id (id_of spouseOfPerson2)]),
      findRelationship_inLaw person1Id person1 person2 allPeople marriage)"

fun findRelationship_inLaws_steps ::
  "string \<Rightarrow> Person \<Rightarrow> Person \<Rightarrow> Person list \<Rightarrow> Marriage list \<Rightarrow>
   Step list \<times> (JsError + Relationship option)" where
  "findRelationship_inLaws_steps person1Id person1 person2 allPeople [] = ([], Inr None)"
| "findRelationship_inLaws_steps person1Id person1 person2 allPeople (marriage # rest) =
     (case findRelationship_inLaw_steps person1Id person1 person2 allPeople marriage of
        (steps, Inl e) \<Rightarrow> (steps, Inl e)
      | (steps, Inr (Some result)) \<Rightarrow> (steps, Inr (Some result))
      | (steps, Inr None) \<Rightarrow>
          (case findRelationship_inLaws_steps person1Id person1 person2 allPeople rest of
             (later, outcome) \<Rightarrow> (steps @ later, outcome)))"

definition findRelationship_steps ::
  "string \<Rightarrow> string \<Rightarrow> Person list \<Rightarrow> Step list \<times> (JsError + Relationship option)" where
  "findRelationship_steps person1Id person2Id allPeople =
     (if person1Id = [] \<or> person2Id = [] \<or> person1Id = person2Id then ([], Inr None)
      else
        (let lookups = [Lookup person1Id, Lookup person2Id] in
         case getPersonById person1Id allPeople of
           None \<Rightarrow> (lookups, Inr None)
         | Some person1 \<Rightarrow>
             (case getPersonById person2Id allPeople of
                None \<Rightarrow> (lookups, Inr None)
              | Some person2 \<Rightarrow>
                  if marriedTo person1 person2Id then
                    (let relation = (if gender person2 = Male then ''Husband''
                                     else if gender person2 = Female then ''Wife'' else ''Spouse'')
                     in (lookups, Inr (Some (PathRel relation [person1, person2]))))
                  else
                    (let blood = lookups @ [CallFindLcaAndPaths person1Id person2Id] in
                     case findLcaAndPaths person1Id person2Id allPeople of
                       Some lcaResult \<Rightarrow>
                         (blood,
                          case describeBloodRelationship person1 person2 (lca lcaResult)
                                 (path1 lcaResult) (path2 lcaResult) of
                            Inl e \<Rightarrow> Inl e
                          | Inr desc \<Rightarrow>
                              Inr (Some (Blood desc (path1 lcaResult) (path2 lcaResult)
                                           (lca lcaResult))))
                     | None \<Rightarrow>
                         (case findRelationship_inLaws_steps person1Id person1 person2 allPeople
                                 (orEmpty (marriages person2)) of
                            (inLaws, Inl e) \<Rightarrow> (blood @ inLaws, Inl e)
                          | (inLaws, Inr (Some result)) \<Rightarrow> (blood @ inLaws, Inr (Some result))
                          | (inLaws, Inr None) \<Rightarrow>
                              (blood @ inLaws @ [CallFindGenericPath person1Id person2Id],
                               case findGenericPath person1 person2 allPeople of
                                 Inl e \<Rightarrow> Inl e
                               | Inr (Some pathResult) \<Rightarrow> Inr (Some pathResult)
                               | Inr None \<Rightarrow>
                                   Inr (Some (NoneRel ''No relationship path could be found.''))))))))"

text \<open>
  The loop of \<open>findAllRelationships\<close> over the blood relatives: line 376 looks the
  relative up, line 380 calls \<open>findRelationship\<close>, whose own calls follow.
\<close>

fun findAllRelationships_inLaws_steps ::
  "string \<Rightarrow> string \<Rightarrow> Person \<Rightarrow> Person list \<Rightarrow> string list \<Rightarrow> Relationship list \<Rightarrow>
   Step list \<times> (JsError + Relationship list)" where
  "findAllRelationships_inLaws_steps person1Id person2Id person2 allPeople [] relationships =
     ([], Inr relationships)"
| "findAllRelationships_inLaws_steps person1Id person2Id person2 allPeople (relativeId # rest)
       relationships =
     (case getPersonById relativeId allPeople of
        None \<Rightarrow>
          (case findAllRelationships_inLaws_steps person1Id person2Id person2 allPeople rest
                  relationships of
             (later, outcome) \<Rightarrow> (Lookup relativeId # later, outcome))
      | Some bloodRelative \<Rightarrow>
          if id_of bloodRelative = person1Id then
            (case findAllRelationships_inLaws_steps person1Id person2Id person2 allPeople rest
                    relationships of
               (later, outcome) \<Rightarrow> (Lookup relativeId # later, outcome))
          else if marriedTo bloodRelative person2Id then
            (case findRelationship_steps person1Id (id_of bloodRelative) allPeople of
               (steps, Inl e) \<Rightarrow> (Lookup relativeId # steps, Inl e)
             | (steps, Inr None) \<Rightarrow>
                 (case findAllRelationships_inLaws_steps person1Id person2Id person2 allPeople rest
                         relationships of
                    (later, outcome) \<Rightarrow> (Lookup relativeId # steps @ later, outcome))
             | (steps, Inr (Some relToBloodRelative)) \<Rightarrow>
                 (let inLawDescription =
                        description relToBloodRelative @ (CHR 0x27 # ''s '') @
                        (if gender person2 = Male then ''Husband'' else ''Wife'')
                  in
                  case relToBloodRelative of
                    NoneRel d \<Rightarrow>
                      (case findAllRelationships_inLaws_steps person1Id person2Id person2 allPeople
                              rest relationships of
                         (later, outcome) \<Rightarrow> (Lookup relativeId # steps @ later, outcome))
                  | Blood d pathA pathB anc \<Rightarrow>
                      (let path = butlast pathA @ rev pathB @ [person2] in
                       case findAllRelationships_inLaws_steps person1Id person2Id person2 allPeople
                              rest
                              (if length path > 0
                               then addRelationship relationships (PathRel inLawDescription path)
                               else relationships) of
                         (later, outcome) \<Rightarrow> (Lookup relativeId # steps @ later, outcome))
                  | PathRel d path0 \<Rightarrow>
                      (let path = path0 @ [person2] in
                       case findAllRelationships_inLaws_steps person1Id person2Id person2 allPeople
                              rest
                              (if length path > 0
                               then addRelationship relationships (PathRel inLawDescription path)
                               else relationships) of
                         (later, outcome) \<Rightarrow> (Lookup relativeId # steps @ later, outcome))))
          else
            (case findAllRelationships_inLaws_steps person1Id person2Id person2 allPeople rest
                    relationships of
               (later, outcome) \<Rightarrow> (Lookup relativeId # later, outcome)))"

text \<open>
  \<open>findAllRelationships\<close>: lines 355 and 356 look both people up before the test of line
  358; line 367 calls \<open>findRelationship\<close>, line 374 \<open>getAllBloodRelativesIds\<close>.
\<close>

definition findAllRelationships_steps ::
  "string \<Rightarrow> string \<Rightarrow> Person list \<Rightarrow> (Step list \<times> (JsError + Relationship list)) option" where
  "findAllRelationships_steps person1Id person2Id allPeople =
     (let lookups = [Lookup person1Id, Lookup person2Id] in
      case getPersonById person1Id allPeople of
        None \<Rightarrow> Some (lookups, Inr [])
      | Some person1 \<Rightarrow>
          (case getPersonById person2Id allPeople of
             None \<Rightarrow> Some (lookups, Inr [])
           | Some person2 \<Rightarrow>
               if person1Id = person2Id then Some (lookups, Inr [])
               else
                 (case findRelationship_steps person1Id person2Id allPeople of
                    (primary, Inl e) \<Rightarrow> Some (lookups @ primary, Inl e)
                  | (primary, Inr primaryRel) \<Rightarrow>
                      (let relationships =
                             (case primaryRel of None \<Rightarrow> [] | Some rel \<Rightarrow> addRelationship [] rel);
                           walk = lookups @ primary @ [CallGetAllBloodRelativesIds (id_of person1)]
                       in
                       case getAllBloodRelativesIds person1 allPeople of
                         None \<Rightarrow> None
                       | Some p1BloodRelatives \<Rightarrow>
                           (case findAllRelationships_inLaws_steps person1Id person2Id person2
                                   allPeople p1BloodRelatives relationships of
                              (inLaws, Inl e) \<Rightarrow> Some (walk @ inLaws, Inl e)
                            | (inLaws, Inr relationships') \<Rightarrow>
                                if length relationships' = 0 then
                                  Some (walk @ inLaws,
                                        Inr [NoneRel ''No relationship path could be found.''])
                                else Some (walk @ inLaws, Inr (sortByLen relationships')))))))"

section \<open>Measures and invariants of the traversals\<close>

text \<open>
  Every id that occurs in some \<open>childrenIds\<close> of the collection (the counterpart of
  \<open>parentIdsIn\<close> for the descendant walk).
\<close>

definition childrenIdsIn :: "Person list \<Rightarrow> string set" where
  "childrenIdsIn allPeople = (\<Union>p \<in> set allPeople. set (orEmpty (childrenIds p)))"

text \<open>
  \<open>parentChain path\<close>: each person of the path lists the id of the next one among the
  \<open>parentIds\<close>. \<open>inCollection\<close>: the person is the one that the collection stores under
  the person's id. \<open>upwardPath allPeople startId endId path\<close>: a non-empty chain of parent
  edges between people of the collection, from the person stored under \<open>startId\<close> to the
  person stored under \<open>endId\<close>.
\<close>

fun parentChain :: "Person list \<Rightarrow> bool" where
  "parentChain (p # q # rest) = (id_of q \<in> set (orEmpty (parentIds p)) \<and> parentChain (q # rest))"
| "parentChain [p] = True"
| "parentChain [] = True"

definition inCollection :: "Person list \<Rightarrow> Person \<Rightarrow> bool" where
  "inCollection allPeople p = (getPersonById (id_of p) allPeople = Some p)"

definition upwardPath :: "Person list \<Rightarrow> string \<Rightarrow> string \<Rightarrow> Person list \<Rightarrow> bool" where
  "upwardPath allPeople startId endId path =
     (path \<noteq> [] \<and> getPersonById startId allPeople = Some (hd path) \<and>
      getPersonById endId allPeople = Some (last path) \<and>
      parentChain path \<and> list_all (inCollection allPeople) path)"

section \<open>The kinship terms as the specification words them\<close>

text \<open>
  The English ordinal suffix as the specification states it: st, nd, rd by the last digit,
  th otherwise, and th for 11, 12 and 13.
\<close>

definition ordinal_suffix_spec :: "int \<Rightarrow> string" where
  "ordinal_suffix_spec n =
     (if n mod 100 = 11 \<or> n mod 100 = 12 \<or> n mod 100 = 13 then ''th''
      else if n mod 10 = 1 then ''st''
      else if n mod 10 = 2 then ''nd''
      else if n mod 10 = 3 then ''rd''
      else ''th'')"

definition removal_suffix_spec :: "int \<Rightarrow> string" where
  "removal_suffix_spec r =
     (if r = 0 then ''''
      else if r = 1 then '', once removed''
      else if r = 2 then '', twice removed''
      else '', '' @ js_String r @ '' times removed'')"

definition cousin_description_spec :: "int \<Rightarrow> int \<Rightarrow> string" where
  "cousin_description_spec d1 d2 =
     js_String (min d1 d2 - 1) @ ordinal_suffix_spec (min d1 d2 - 1) @ '' cousin'' @
     removal_suffix_spec \<bar>d1 - d2\<bar>"

text \<open>The suffix that \<open>ordinal\<close> picks for \<open>v = n % 100\<close>.\<close>

definition suffix_pick :: "int \<Rightarrow> string" where
  "suffix_pick v =
     (let s = [''th'', ''st'', ''nd'', ''rd''] in
      case js_index s (js_rem (v - 20) 10) of
        Some t \<Rightarrow> t
      | None \<Rightarrow> (case js_index s v of Some t \<Rightarrow> t | None \<Rightarrow> s ! 0))"

text \<open>
  The aunt/uncle/niece/nephew term as the specification words it: the prefix
  \<open>Grand-\<close> once per generation of removal beyond the first.
\<close>

definition aunt_uncle_term_spec :: "Gender \<Rightarrow> int \<Rightarrow> int \<Rightarrow> string" where
  "aunt_uncle_term_spec g d1 d2 =
     concat (replicate (nat (\<bar>d1 - d2\<bar> - 1)) ''Grand-'') @
     (if d1 < d2 then
        (if g = Male then ''nephew'' else if g = Female then ''niece'' else ''nephew/niece'')
      else
        (if g = Male then ''uncle'' else if g = Female then ''aunt'' else ''aunt/uncle''))"

section \<open>Connectedness of two people\<close>

text \<open>
  \<open>edge allPeople a b\<close>: the person stored under \<open>a\<close> lists \<open>b\<close> as a parent, a child
  or a spouse. Two ids are connected when a path of such edges, each taken in either
  direction, leads from one to the other.
\<close>

definition edge :: "Person list \<Rightarrow> string \<Rightarrow> string \<Rightarrow> bool" where
  "edge allPeople a b = (\<exists>p. getPersonById a allPeople = Some p \<and> b \<in> set (neighborsOf p))"

definition connected :: "Person list \<Rightarrow> string \<Rightarrow> string \<Rightarrow> bool" where
  "connected allPeople a b =
     ((a, b) \<in> ({(x, y). edge allPeople x y} \<union> {(x, y). edge allPeople y x})\<^sup>*)"

text \<open>
  The queue invariant of \<open>findGenericPath\<close>: every queued path is non-empty, ends at the
  person stored under the queued id, and that id is connected to the start.
\<close>

definition genericEntry :: "Person list \<Rightarrow> string \<Rightarrow> string \<times> Person list \<Rightarrow> bool" where
  "genericEntry allPeople startId entry =
     (case entry of (personId, path) \<Rightarrow>
        path \<noteq> [] \<and> getPersonById personId allPeople = Some (last path) \<and>
        connected allPeople startId personId)"

section \<open>The in-law terms\<close>

text \<open>The in-law terms that step C of \<open>findRelationship\<close> can produce.\<close>

definition inLawTerm :: "string \<Rightarrow> bool" where
  "inLawTerm d =
     (d = ''Son's Wife (Bahu)'' \<or> d = ''Daughter's Husband (Damad)''
      \<or> (\<exists>n. d = concat (replicate n ''Great-'') @ ''Grandson's Wife (Bahu)'')
      \<or> (\<exists>n. d = concat (replicate n ''Great-'') @ ''Granddaughter's Husband (Damad)''))"

section \<open>Example collections\<close>

text \<open>
  \<open>mkPerson i g parents children spouses\<close>: a person with id and first name \<open>i\<close>, the
  given gender, parents, children, and one marriage for each spouse.
\<close>

definition mkPerson :: "string \<Rightarrow> Gender \<Rightarrow> string list \<Rightarrow> string list \<Rightarrow> string list \<Rightarrow> Person" where
  "mkPerson i g parents children spouses =
     \<lparr>id_of = i, firstName = i, lastName = None, familyCast = None, gender = g,
      parentIds = Some parents,
      marriages = Some (map (\<lambda>s. \<lparr>spouseId = s, date = None, place = None, status = Married\<rparr>) spouses),
      childrenIds = Some children, isAdopted = None\<rparr>"

text \<open>Three generations: grandparent \<open>g\<close>, parent \<open>p\<close>, child \<open>c\<close>.\<close>

definition chain_g :: Person where
  "chain_g = mkPerson ''g'' Male [] [''p''] []"

definition chain_p :: Person where
  "chain_p = mkPerson ''p'' Female [''g''] [''c''] []"

definition chain_c :: Person where
  "chain_c = mkPerson ''c'' Male [''p''] [] []"

definition threeGenerations :: "Person list" where
  "threeGenerations = [chain_g, chain_p, chain_c]"

text \<open>Corrupted data: \<open>a\<close> and \<open>b\<close> are each other's parent.\<close>

definition cycle_a :: Person where
  "cycle_a = mkPerson ''a'' Male [''b''] [''b''] []"

definition cycle_b :: Person where
  "cycle_b = mkPerson ''b'' Female [''a''] [''a''] []"

definition parentCycle :: "Person list" where
  "parentCycle = [cycle_a, cycle_b]"

text \<open>
  Two cousins \<open>a\<close> and \<open>b\<close>, grandchildren of \<open>g\<close> through \<open>p\<close> and \<open>u\<close>, who are
  married to each other.
\<close>

definition cousins_g :: Person where
  "cousins_g = mkPerson ''g'' Male [] [''p'', ''u''] []"

definition cousins_p :: Person where
  "cousins_p = mkPerson ''p'' Female [''g''] [''a''] []"

definition cousins_u :: Person where
  "cousins_u = mkPerson ''u'' Male [''g''] [''b''] []"

definition cousins_a :: Person where
  "cousins_a = mkPerson ''a'' Male [''p''] [] [''b'']"

definition cousins_b :: Person where
  "cousins_b = mkPerson ''b'' Female [''u''] [] [''a'']"

definition marriedCousins :: "Person list" where
  "marriedCousins = [cousins_g, cousins_p, cousins_u, cousins_a, cousins_b]"

text \<open>
  A family with two lines below \<open>g\<close>: \<open>g \<rightarrow> p \<rightarrow> p1 \<rightarrow> p2\<close> and
  \<open>g \<rightarrow> u \<rightarrow> u1 \<rightarrow> u2 \<rightarrow> u3\<close>; nobody is married.
\<close>

definition kin_g :: Person where
  "kin_g = mkPerson ''g'' Male [] [''p'', ''u''] []"

definition kin_p :: Person where
  "kin_p = mkPerson ''p'' Female [''g''] [''p1''] []"

definition kin_u :: Person where
  "kin_u = mkPerson ''u'' Male [''g''] [''u1''] []"

definition kin_p1 :: Person where
  "kin_p1 = mkPerson ''p1'' Male [''p''] [''p2''] []"

definition kin_p2 :: Person where
  "kin_p2 = mkPerson ''p2'' Female [''p1''] [] []"

definition kin_u1 :: Person where
  "kin_u1 = mkPerson ''u1'' Female [''u''] [''u2''] []"

definition kin_u2 :: Person where
  "kin_u2 = mkPerson ''u2'' Male [''u1''] [''u3''] []"

definition kin_u3 :: Person where
  "kin_u3 = mkPerson ''u3'' Male [''u2''] [] []"

definition kinFamily :: "Person list" where
  "kinFamily = [kin_g, kin_p, kin_u, kin_p1, kin_p2, kin_u1, kin_u2, kin_u3]"

text \<open>Two unrelated islands: \<open>a1\<close> with child \<open>a2\<close>, and the couple \<open>b1\<close>, \<open>b2\<close>.\<close>

definition island_a1 :: Person where
  "island_a1 = mkPerson ''a1'' Male [] [''a2''] []"

definition island_a2 :: Person where
  "island_a2 = mkPerson ''a2'' Female [''a1''] [] []"

definition island_b1 :: Person where
  "island_b1 = mkPerson ''b1'' Male [] [] [''b2'']"

definition island_b2 :: Person where
  "island_b2 = mkPerson ''b2'' Female [] [] [''b1'']"

definition twoIslands :: "Person list" where
  "twoIslands = [island_a1, island_a2, island_b1, island_b2]"

text \<open>
  \<open>s\<close> is the son of \<open>g\<close>, and is married to \<open>x\<close>, whose gender is Other.
\<close>

definition inlaw_g :: Person where
  "inlaw_g = mkPerson ''g'' Male [] [''s''] []"

definition inlaw_s :: Person where
  "inlaw_s = mkPerson ''s'' Male [''g''] [] [''x'']"

definition inlaw_x :: Person where
  "inlaw_x = mkPerson ''x'' Other [] [] [''s'']"

definition inLawFamily :: "Person list" where
  "inLawFamily = [inlaw_g, inlaw_s, inlaw_x]"

section \<open>Termination of the search loops\<close>

lemma getPersonById_Some: "getPersonById i ps = Some p \<Longrightarrow> p \<in> set ps \<and> id_of p = i"
  by (induction ps) (auto split: if_splits)

lemma finite_parentIdsIn: "finite (parentIdsIn allPeople)"
  by (simp add: parentIdsIn_def)

lemma parentsOfId_subset: "set (parentsOfId personId allPeople) \<subseteq> parentIdsIn allPeople"
proof (cases "getPersonById personId allPeople")
  case None
  then show ?thesis by (simp add: parentsOfId_def)
next
  case (Some person)
  then have "person \<in> set allPeople" by (simp add: getPersonById_Some)
  with Some show ?thesis by (auto simp: parentsOfId_def parentIdsIn_def)
qed

lemma card_Diff_insert_less:
  assumes "finite U" "x \<in> U" "x \<notin> V"
  shows "card (U - insert x V) < card (U - V)"
proof -
  have "U - insert x V \<subset> U - V" using assms by auto
  then show ?thesis using assms(1) by (intro psubset_card_mono) auto
qed

lemma getPathToAncestor_parents_measure:
  assumes "getPathToAncestor_parents allPeople endId path ps visited queue = Inr (visited', queue')"
    and "set ps \<subseteq> U" and "finite U"
  shows "card (U - visited') + length queue' \<le> card (U - visited) + length queue"
  using assms
proof (induction ps arbitrary: visited queue)
  case Nil
  then show ?case by simp
next
  case (Cons parentId rest)
  show ?case
  proof (cases "parentId \<in> visited")
    case True
    with Cons show ?thesis by simp
  next
    case False
    have less: "card (U - insert parentId visited) < card (U - visited)"
      using Cons.prems False by (intro card_Diff_insert_less) auto
    show ?thesis
    proof (cases "getPersonById parentId allPeople")
      case None
      with Cons.prems False
      have "card (U - visited') + length queue' \<le> card (U - insert parentId visited) + length queue"
        by (intro Cons.IH) auto
      with less show ?thesis by simp
    next
      case (Some parentPerson)
      with Cons.prems False have ne: "parentId \<noteq> endId"
        by (auto simp: Let_def split: if_splits)
      with Cons.prems False Some
      have "card (U - visited') + length queue'
              \<le> card (U - insert parentId visited) + length (queue @ [(parentId, path @ [parentPerson])])"
        by (intro Cons.IH) (auto simp: Let_def)
      with less show ?thesis by simp
    qed
  qed
qed

termination getPathToAncestor_loop
proof (relation "measure (\<lambda>(allPeople, endId, queue, visited).
          card (parentIdsIn allPeople - visited) + length queue)", goal_cases)
  case 1
  then show ?case by simp
next
  case (2 allPeople endId personId path queue visited x2 visited' queue')
  then have "getPathToAncestor_parents allPeople endId path (parentsOfId personId allPeople)
               visited queue = Inr (visited', queue')"
    by simp
  from getPathToAncestor_parents_measure[OF this parentsOfId_subset finite_parentIdsIn]
  show ?case by simp
qed

lemma card_Diff_subset_le:
  assumes "finite U" "U' \<subseteq> U"
  shows "card (U' - V) \<le> card (U - V)"
  using assms by (intro card_mono) auto

termination findLcaAndPaths_ancestors
proof (relation "measures [\<lambda>(allPeople, queue1, visited1, p1Ancestors).
                             card ((set queue1 \<union> parentIdsIn allPeople) - visited1),
                           \<lambda>(allPeople, queue1, visited1, p1Ancestors). length queue1]",
       goal_cases)
  case 1
  then show ?case by simp
next
  case (2 allPeople currentId queue1 visited1 p1Ancestors)
  have "card ((set queue1 \<union> parentIdsIn allPeople) - visited1)
          \<le> card ((set (currentId # queue1) \<union> parentIdsIn allPeople) - visited1)"
    by (intro card_Diff_subset_le) (auto simp: finite_parentIdsIn)
  then show ?case by auto
next
  case (3 allPeople currentId queue1 visited1 p1Ancestors)
  have "card ((set queue1 \<union> parentIdsIn allPeople) - insert currentId visited1)
          \<le> card ((set (currentId # queue1) \<union> parentIdsIn allPeople) - insert currentId visited1)"
    by (intro card_Diff_subset_le) (auto simp: finite_parentIdsIn)
  also have "\<dots> < card ((set (currentId # queue1) \<union> parentIdsIn allPeople) - visited1)"
    using 3 by (intro card_Diff_insert_less) (auto simp: finite_parentIdsIn)
  finally show ?case by simp
next
  case (4 allPeople currentId queue1 visited1 p1Ancestors person)
  then have "person \<in> set allPeople" by (simp add: getPersonById_Some)
  then have sub: "set (orEmpty (parentIds person)) \<subseteq> parentIdsIn allPeople"
    by (auto simp: parentIdsIn_def)
  have "card ((set (queue1 @ orEmpty (parentIds person)) \<union> parentIdsIn allPeople) - insert currentId visited1)
          \<le> card ((set (currentId # queue1) \<union> parentIdsIn allPeople) - insert currentId visited1)"
    using sub by (intro card_Diff_subset_le) (auto simp: finite_parentIdsIn)
  also have "\<dots> < card ((set (currentId # queue1) \<union> parentIdsIn allPeople) - visited1)"
    using 4 by (intro card_Diff_insert_less) (auto simp: finite_parentIdsIn)
  finally show ?case by simp
qed

lemma findLcaAndPaths_enqueue_measure:
  assumes "findLcaAndPaths_enqueue ps visited2 queue2 = (visited2', queue2')"
    and "set ps \<subseteq> U" and "finite U"
  shows "card (U - visited2') + length queue2' \<le> card (U - visited2) + length queue2"
  using assms
proof (induction ps arbitrary: visited2 queue2)
  case Nil
  then show ?case by simp
next
  case (Cons parentId rest)
  show ?case
  proof (cases "parentId \<in> visited2")
    case True
    with Cons show ?thesis by simp
  next
    case False
    have less: "card (U - insert parentId visited2) < card (U - visited2)"
      using Cons.prems False by (intro card_Diff_insert_less) auto
    from Cons.prems False
    have "card (U - visited2') + length queue2'
            \<le> card (U - insert parentId visited2) + length (queue2 @ [parentId])"
      by (intro Cons.IH) auto
    with less show ?thesis by simp
  qed
qed

termination findLcaAndPaths_search
proof (relation "measure (\<lambda>(allPeople, person1Id, person2Id, p1Ancestors, queue2, visited2).
          card (parentIdsIn allPeople - visited2) + length queue2)", goal_cases)
  case 1
  then show ?case by simp
next
  case (2 allPeople person1Id person2Id p1Ancestors currentId queue2 visited2 visited2' queue2')
  then have "findLcaAndPaths_enqueue (parentsOfId currentId allPeople) visited2 queue2
               = (visited2', queue2')"
    by simp
  from findLcaAndPaths_enqueue_measure[OF this parentsOfId_subset finite_parentIdsIn]
  show ?case by simp
qed

lemma finite_neighborIdsIn: "finite (neighborIdsIn allPeople)"
  by (simp add: neighborIdsIn_def)

lemma finite_queueNeighborIds: "finite (queueNeighborIds queue)"
  by (auto simp: queueNeighborIds_def)

lemma findGenericPath_neighbors_measure:
  assumes "findGenericPath_neighbors allPeople path ns visited queue = (visited', queue')"
    and "set ns \<subseteq> U" and "finite U"
  shows "card (U - visited') + length queue' \<le> card (U - visited) + length queue"
  using assms
proof (induction ns arbitrary: visited queue)
  case Nil
  then show ?case by simp
next
  case (Cons neighborId rest)
  show ?case
  proof (cases "neighborId \<in> visited")
    case True
    with Cons show ?thesis by simp
  next
    case False
    have less: "card (U - insert neighborId visited) < card (U - visited)"
      using Cons.prems False by (intro card_Diff_insert_less) auto
    show ?thesis
    proof (cases "getPersonById neighborId allPeople")
      case None
      with Cons.prems False
      have "card (U - visited') + length queue' \<le> card (U - insert neighborId visited) + length queue"
        by (intro Cons.IH) auto
      with less show ?thesis by simp
    next
      case (Some neighborPerson)
      with Cons.prems False
      have "card (U - visited') + length queue'
              \<le> card (U - insert neighborId visited)
                  + length (queue @ [(neighborId, path @ [neighborPerson])])"
        by (intro Cons.IH) auto
      with less show ?thesis by simp
    qed
  qed
qed

lemma findGenericPath_neighbors_ids:
  assumes "findGenericPath_neighbors allPeople path ns visited queue = (visited', queue')"
  shows "queueNeighborIds queue' \<subseteq> queueNeighborIds queue \<union> neighborIdsIn allPeople"
  using assms
proof (induction ns arbitrary: visited queue)
  case Nil
  then show ?case by auto
next
  case (Cons neighborId rest)
  show ?case
  proof (cases "neighborId \<in> visited")
    case True
    with Cons show ?thesis by simp
  next
    case False
    show ?thesis
    proof (cases "getPersonById neighborId allPeople")
      case None
      with Cons False show ?thesis by simp
    next
      case (Some neighborPerson)
      then have mem: "neighborPerson \<in> set allPeople" by (simp add: getPersonById_Some)
      from Cons.prems False Some
      have "queueNeighborIds queue'
              \<subseteq> queueNeighborIds (queue @ [(neighborId, path @ [neighborPerson])])
                  \<union> neighborIdsIn allPeople"
        by (intro Cons.IH) auto
      moreover have "queueNeighborIds (queue @ [(neighborId, path @ [neighborPerson])])
              \<subseteq> queueNeighborIds queue \<union> neighborIdsIn allPeople"
        using mem by (auto simp: queueNeighborIds_def neighborIdsIn_def)
      ultimately show ?thesis by blast
    qed
  qed
qed

termination findGenericPath_loop
proof (relation "measure (\<lambda>(allPeople, person2, queue, visited).
          card ((neighborIdsIn allPeople \<union> queueNeighborIds queue) - visited) + length queue)",
       goal_cases)
  case 1
  then show ?case by simp
next
  case (2 allPeople person2 personId path queue visited visited' queue')
  let ?U = "neighborIdsIn allPeople \<union> queueNeighborIds ((personId, path) # queue)"
  have fin: "finite ?U" by (simp add: finite_neighborIdsIn finite_queueNeighborIds)
  from 2 have res: "findGenericPath_neighbors allPeople path (neighborsOf (last path)) visited queue
                      = (visited', queue')"
    by simp
  from 2 have sub: "set (neighborsOf (last path)) \<subseteq> ?U"
    by (auto simp: queueNeighborIds_def)
  have "queueNeighborIds queue \<subseteq> ?U" by (auto simp: queueNeighborIds_def)
  with findGenericPath_neighbors_ids[OF res]
  have "neighborIdsIn allPeople \<union> queueNeighborIds queue' \<subseteq> ?U" by blast
  then have "card ((neighborIdsIn allPeople \<union> queueNeighborIds queue') - visited')
               \<le> card (?U - visited')"
    using fin by (intro card_Diff_subset_le)
  moreover from findGenericPath_neighbors_measure[OF res sub fin]
  have "card (?U - visited') + length queue' \<le> card (?U - visited) + length queue" .
  ultimately show ?case by simp
qed

section \<open>Termination of the ancestor and descendant walks\<close>

lemma getAncestors_loop_Nil:
  "getAncestors_loop allPeople [] visited ancestors = Some ancestors"
  by (subst getAncestors_loop.simps) simp

lemma getAncestors_loop_Cons:
  "getAncestors_loop allPeople (personId # rest) visited ancestors =
     (if personId \<in> visited \<or> personId = [] then
        getAncestors_loop allPeople rest visited ancestors
      else
        (case getPersonById personId allPeople of
           None \<Rightarrow> getAncestors_loop allPeople rest (insert personId visited) ancestors
         | Some p \<Rightarrow>
             getAncestors_loop allPeople
               (rest @ filter (\<lambda>parentId. parentId \<notin> insert personId visited)
                         (orEmpty (parentIds p)))
               (insert personId visited) (ancestors @ [p])))"
  by (subst getAncestors_loop.simps) simp

lemma person_parentIds_subset:
  "getPersonById personId allPeople = Some p \<Longrightarrow> set (orEmpty (parentIds p)) \<subseteq> parentIdsIn allPeople"
  using parentsOfId_subset[of personId allPeople] by (simp add: parentsOfId_def)

lemma getAncestors_loop_terminates:
  "\<exists>r. getAncestors_loop allPeople queue visited ancestors = Some r"
proof (induction "(card ((set queue \<union> parentIdsIn allPeople) - visited), length queue)"
        arbitrary: queue visited ancestors
        rule: wf_induct_rule[OF wf_lex_prod[OF wf_less_than wf_less_than]])
  case 1
  note IH = 1
  show ?case
  proof (cases queue)
    case Nil
    then show ?thesis by (simp add: getAncestors_loop_Nil)
  next
    case (Cons personId rest)
    let ?U = "set queue \<union> parentIdsIn allPeople"
    have fin: "finite ?U" by (simp add: finite_parentIdsIn)
    show ?thesis
    proof (cases "personId \<in> visited \<or> personId = []")
      case True
      have "card ((set rest \<union> parentIdsIn allPeople) - visited) \<le> card (?U - visited)"
        using Cons by (intro card_Diff_subset_le[OF fin]) auto
      then have "\<exists>r. getAncestors_loop allPeople rest visited ancestors = Some r"
        using Cons by (intro IH) auto
      with True Cons show ?thesis by (simp add: getAncestors_loop_Cons)
    next
      case False
      then have nv: "personId \<notin> visited" by simp
      have dec: "card (?U - insert personId visited) < card (?U - visited)"
        using Cons nv by (intro card_Diff_insert_less[OF fin]) auto
      show ?thesis
      proof (cases "getPersonById personId allPeople")
        case None
        have "card ((set rest \<union> parentIdsIn allPeople) - insert personId visited)
                \<le> card (?U - insert personId visited)"
          using Cons by (intro card_Diff_subset_le[OF fin]) auto
        with dec have "\<exists>r. getAncestors_loop allPeople rest (insert personId visited) ancestors = Some r"
          by (intro IH) auto
        with False None Cons show ?thesis by (simp add: getAncestors_loop_Cons)
      next
        case (Some p)
        let ?q = "rest @ filter (\<lambda>parentId. parentId \<notin> insert personId visited) (orEmpty (parentIds p))"
        have "set ?q \<union> parentIdsIn allPeople \<subseteq> ?U"
          using Cons person_parentIds_subset[OF Some] by auto
        then have "card ((set ?q \<union> parentIdsIn allPeople) - insert personId visited)
                \<le> card (?U - insert personId visited)"
          by (intro card_Diff_subset_le[OF fin])
        with dec have "\<exists>r. getAncestors_loop allPeople ?q (insert personId visited) (ancestors @ [p]) = Some r"
          by (intro IH) auto
        with False Some Cons show ?thesis by (simp add: getAncestors_loop_Cons)
      qed
    qed
  qed
qed

lemma finite_childrenIdsIn: "finite (childrenIdsIn allPeople)"
  by (simp add: childrenIdsIn_def)

lemma getDescendants_loop_Nil:
  "getDescendants_loop allPeople [] visited descendants = Some descendants"
  by (subst getDescendants_loop.simps) simp

lemma getDescendants_loop_Cons:
  "getDescendants_loop allPeople (personId # rest) visited descendants =
     (if personId \<in> visited \<or> personId = [] then
        getDescendants_loop allPeople rest visited descendants
      else
        (case getPersonById personId allPeople of
           None \<Rightarrow> getDescendants_loop allPeople rest (insert personId visited) descendants
         | Some p \<Rightarrow>
             getDescendants_loop allPeople
               (rest @ filter (\<lambda>childId. childId \<notin> insert personId visited)
                         (orEmpty (childrenIds p)))
               (insert personId visited) (descendants @ [p])))"
  by (subst getDescendants_loop.simps) simp

lemma person_childrenIds_subset:
  "getPersonById personId allPeople = Some p \<Longrightarrow> set (orEmpty (childrenIds p)) \<subseteq> childrenIdsIn allPeople"
  by (auto simp: childrenIdsIn_def dest: getPersonById_Some)

lemma getDescendants_loop_terminates:
  "\<exists>r. getDescendants_loop allPeople queue visited descendants = Some r"
proof (induction "(card ((set queue \<union> childrenIdsIn allPeople) - visited), length queue)"
        arbitrary: queue visited descendants
        rule: wf_induct_rule[OF wf_lex_prod[OF wf_less_than wf_less_than]])
  case 1
  note IH = 1
  show ?case
  proof (cases queue)
    case Nil
    then show ?thesis by (simp add: getDescendants_loop_Nil)
  next
    case (Cons personId rest)
    let ?U = "set queue \<union> childrenIdsIn allPeople"
    have fin: "finite ?U" by (simp add: finite_childrenIdsIn)
    show ?thesis
    proof (cases "personId \<in> visited \<or> personId = []")
      case True
      have "card ((set rest \<union> childrenIdsIn allPeople) - visited) \<le> card (?U - visited)"
        using Cons by (intro card_Diff_subset_le[OF fin]) auto
      then have "\<exists>r. getDescendants_loop allPeople rest visited descendants = Some r"
        using Cons by (intro IH) auto
      with True Cons show ?thesis by (simp add: getDescendants_loop_Cons)
    next
      case False
      then have nv: "personId \<notin> visited" by simp
      have dec: "card (?U - insert personId visited) < card (?U - visited)"
        using Cons nv by (intro card_Diff_insert_less[OF fin]) auto
      show ?thesis
      proof (cases "getPersonById personId allPeople")
        case None
        have "card ((set rest \<union> childrenIdsIn allPeople) - insert personId visited)
                \<le> card (?U - insert personId visited)"
          using Cons by (intro card_Diff_subset_le[OF fin]) auto
        with dec have "\<exists>r. getDescendants_loop allPeople rest (insert personId visited) descendants = Some r"
          by (intro IH) auto
        with False None Cons show ?thesis by (simp add: getDescendants_loop_Cons)
      next
        case (Some p)
        let ?q = "rest @ filter (\<lambda>childId. childId \<notin> insert personId visited) (orEmpty (childrenIds p))"
        have "set ?q \<union> childrenIdsIn allPeople \<subseteq> ?U"
          using Cons person_childrenIds_subset[OF Some] by auto
        then have "card ((set ?q \<union> childrenIdsIn allPeople) - insert personId visited)
                \<le> card (?U - insert personId visited)"
          by (intro card_Diff_subset_le[OF fin])
        with dec have "\<exists>r. getDescendants_loop allPeople ?q (insert personId visited) (descendants @ [p]) = Some r"
          by (intro IH) auto
        with False Some Cons show ?thesis by (simp add: getDescendants_loop_Cons)
      qed
    qed
  qed
qed

lemma getAncestorsHierarchically_loop_Nil:
  "getAncestorsHierarchically_loop allPeople [] visited results = Some results"
  by (subst getAncestorsHierarchically_loop.simps) simp

lemma getAncestorsHierarchically_loop_Cons:
  "getAncestorsHierarchically_loop allPeople ((personId, level) # rest) visited results =
     (if personId = [] \<or> personId \<in> visited then
        getAncestorsHierarchically_loop allPeople rest visited results
      else
        (case getPersonById personId allPeople of
           None \<Rightarrow>
             getAncestorsHierarchically_loop allPeople rest (insert personId visited) results
         | Some p \<Rightarrow>
             getAncestorsHierarchically_loop allPeople
               (rest @ map (\<lambda>parentId. (parentId, level + 1))
                         (filter (\<lambda>parentId. parentId \<notin> insert personId visited)
                            (orEmpty (parentIds p))))
               (insert personId visited) (results @ [(p, level)])))"
  by (subst getAncestorsHierarchically_loop.simps) simp

lemma getAncestorsHierarchically_loop_terminates:
  "\<exists>r. getAncestorsHierarchically_loop allPeople queue visited results = Some r"
proof (induction "(card ((fst ` set queue \<union> parentIdsIn allPeople) - visited), length queue)"
        arbitrary: queue visited results
        rule: wf_induct_rule[OF wf_lex_prod[OF wf_less_than wf_less_than]])
  case 1
  note IH = 1
  show ?case
  proof (cases queue)
    case Nil
    then show ?thesis by (simp add: getAncestorsHierarchically_loop_Nil)
  next
    case (Cons entry rest)
    obtain personId level where entry: "entry = (personId, level)" by (cases entry)
    let ?U = "fst ` set queue \<union> parentIdsIn allPeople"
    have fin: "finite ?U" by (simp add: finite_parentIdsIn)
    show ?thesis
    proof (cases "personId = [] \<or> personId \<in> visited")
      case True
      have "card ((fst ` set rest \<union> parentIdsIn allPeople) - visited) \<le> card (?U - visited)"
        using Cons by (intro card_Diff_subset_le[OF fin]) auto
      then have "\<exists>r. getAncestorsHierarchically_loop allPeople rest visited results = Some r"
        using Cons by (intro IH) auto
      with True Cons entry show ?thesis by (simp add: getAncestorsHierarchically_loop_Cons)
    next
      case False
      then have nv: "personId \<notin> visited" by simp
      have dec: "card (?U - insert personId visited) < card (?U - visited)"
        using Cons entry nv by (intro card_Diff_insert_less[OF fin]) auto
      show ?thesis
      proof (cases "getPersonById personId allPeople")
        case None
        have "card ((fst ` set rest \<union> parentIdsIn allPeople) - insert personId visited)
                \<le> card (?U - insert personId visited)"
          using Cons by (intro card_Diff_subset_le[OF fin]) auto
        with dec
        have "\<exists>r. getAncestorsHierarchically_loop allPeople rest (insert personId visited) results
                = Some r"
          by (intro IH) auto
        with False None Cons entry show ?thesis
          by (simp add: getAncestorsHierarchically_loop_Cons)
      next
        case (Some p)
        let ?q = "rest @ map (\<lambda>parentId. (parentId, level + 1))
                         (filter (\<lambda>parentId. parentId \<notin> insert personId visited)
                            (orEmpty (parentIds p)))"
        have "fst ` set ?q \<union> parentIdsIn allPeople \<subseteq> ?U"
          using Cons person_parentIds_subset[OF Some] by (auto simp: image_Un)
        then have "card ((fst ` set ?q \<union> parentIdsIn allPeople) - insert personId visited)
                \<le> card (?U - insert personId visited)"
          by (intro card_Diff_subset_le[OF fin])
        with dec
        have "\<exists>r. getAncestorsHierarchically_loop allPeople ?q (insert personId visited)
                     (results @ [(p, level)]) = Some r"
          by (intro IH) auto
        with False Some Cons entry show ?thesis
          by (simp add: getAncestorsHierarchically_loop_Cons)
      qed
    qed
  qed
qed

section \<open>The paths of findLcaAndPaths follow parent edges\<close>

lemma getPersonById_inCollection:
  "getPersonById i allPeople = Some p \<Longrightarrow> inCollection allPeople p"
  by (simp add: inCollection_def getPersonById_Some)

lemma parentChain_snoc:
  assumes "parentChain path" "path \<noteq> []" "id_of q \<in> set (orEmpty (parentIds (last path)))"
  shows "parentChain (path @ [q])"
  using assms by (induction path rule: parentChain.induct) auto

lemma upwardPath_snoc:
  assumes "upwardPath allPeople startId personId path"
    and "getPersonById parentId allPeople = Some parentPerson"
    and "parentId \<in> set (parentsOfId personId allPeople)"
  shows "upwardPath allPeople startId parentId (path @ [parentPerson])"
proof -
  from assms(1) have last: "getPersonById personId allPeople = Some (last path)"
    and ne: "path \<noteq> []" by (simp_all add: upwardPath_def)
  with assms(3) have "parentId \<in> set (orEmpty (parentIds (last path)))"
    by (simp add: parentsOfId_def)
  moreover have "id_of parentPerson = parentId" using assms(2) by (simp add: getPersonById_Some)
  ultimately have "parentChain (path @ [parentPerson])"
    using assms(1) ne by (intro parentChain_snoc) (simp_all add: upwardPath_def)
  with assms(1,2) ne show ?thesis
    by (simp add: upwardPath_def getPersonById_inCollection)
qed

lemma getPathToAncestor_parents_sound:
  assumes "upwardPath allPeople startId personId path"
    and "set ps \<subseteq> set (parentsOfId personId allPeople)"
    and "\<forall>(i, p) \<in> set queue. upwardPath allPeople startId i p"
  shows "case getPathToAncestor_parents allPeople endId path ps visited queue of
           Inl newPath \<Rightarrow> upwardPath allPeople startId endId newPath
         | Inr (visited', queue') \<Rightarrow> \<forall>(i, p) \<in> set queue'. upwardPath allPeople startId i p"
  using assms
proof (induction ps arbitrary: visited queue)
  case Nil
  then show ?case by simp
next
  case (Cons parentId rest)
  show ?case
  proof (cases "parentId \<in> visited")
    case True
    with Cons show ?thesis by simp
  next
    case False
    show ?thesis
    proof (cases "getPersonById parentId allPeople")
      case None
      with Cons False show ?thesis by simp
    next
      case (Some parentPerson)
      from Cons.prems have "parentId \<in> set (parentsOfId personId allPeople)" by simp
      from upwardPath_snoc[OF Cons.prems(1) Some this]
      have up: "upwardPath allPeople startId parentId (path @ [parentPerson])" .
      show ?thesis
      proof (cases "parentId = endId")
        case True
        with False Some up show ?thesis by (simp add: Let_def)
      next
        case neq: False
        have "case getPathToAncestor_parents allPeople endId path rest (insert parentId visited)
                     (queue @ [(parentId, path @ [parentPerson])]) of
                Inl newPath \<Rightarrow> upwardPath allPeople startId endId newPath
              | Inr (visited', queue') \<Rightarrow> \<forall>(i, p) \<in> set queue'. upwardPath allPeople startId i p"
          using Cons.prems up by (intro Cons.IH) auto
        with False Some neq show ?thesis by (simp add: Let_def)
      qed
    qed
  qed
qed

lemma getPathToAncestor_loop_sound:
  assumes "getPathToAncestor_loop allPeople endId queue visited = Some result"
    and "\<forall>(i, p) \<in> set queue. upwardPath allPeople startId i p"
  shows "upwardPath allPeople startId endId result"
  using assms
proof (induction allPeople endId queue visited rule: getPathToAncestor_loop.induct)
  case (1 allPeople endId visited)
  then show ?case by simp
next
  case (2 allPeople endId personId path queue visited)
  from "2.prems"(2) have up: "upwardPath allPeople startId personId path"
    and rest: "\<forall>(i, p) \<in> set queue. upwardPath allPeople startId i p" by simp_all
  note snd = getPathToAncestor_parents_sound[OF up subset_refl rest, of endId visited]
  show ?case
  proof (cases "getPathToAncestor_parents allPeople endId path (parentsOfId personId allPeople)
                  visited queue")
    case (Inl newPath)
    with snd "2.prems"(1) show ?thesis by simp
  next
    case (Inr state)
    obtain visited' queue' where state: "state = (visited', queue')" by (cases state)
    from snd Inr state have "\<forall>(i, p) \<in> set queue'. upwardPath allPeople startId i p" by simp
    moreover from "2.prems"(1) Inr state
    have "getPathToAncestor_loop allPeople endId queue' visited' = Some result" by simp
    ultimately show ?thesis using "2.IH"[OF Inr state[symmetric]] by simp
  qed
qed

lemma getPathToAncestor_sound:
  assumes "getPathToAncestor allPeople startId endId = Some path"
  shows "upwardPath allPeople startId endId path"
proof (cases "getPersonById startId allPeople")
  case None
  with assms show ?thesis by (simp add: getPathToAncestor_def)
next
  case (Some startPerson)
  then have start: "upwardPath allPeople startId startId [startPerson]"
    by (simp add: upwardPath_def getPersonById_inCollection)
  show ?thesis
  proof (cases "startId = endId")
    case True
    with assms Some start show ?thesis by (simp add: getPathToAncestor_def)
  next
    case False
    with assms Some
    have run: "getPathToAncestor_loop allPeople endId [(startId, [startPerson])] {startId} = Some path"
      by (simp add: getPathToAncestor_def)
    have inv: "\<forall>(i, p) \<in> set [(startId, [startPerson])]. upwardPath allPeople startId i p"
      using start by simp
    from getPathToAncestor_loop_sound[OF run inv] show ?thesis .
  qed
qed

lemma findLcaAndPaths_ancestors_lookup:
  assumes "findLcaAndPaths_ancestors allPeople queue1 visited1 p1Ancestors k = Some x"
    and "\<And>k x. p1Ancestors k = Some x \<Longrightarrow> getPersonById k allPeople = Some x"
  shows "getPersonById k allPeople = Some x"
  using assms
proof (induction allPeople queue1 visited1 p1Ancestors rule: findLcaAndPaths_ancestors.induct)
  case (1 allPeople visited1 p1Ancestors)
  then show ?case by simp
next
  case (2 allPeople currentId queue1 visited1 p1Ancestors)
  show ?case
  proof (cases "currentId \<in> visited1")
    case True
    with 2 show ?thesis by simp
  next
    case False
    show ?thesis
    proof (cases "getPersonById currentId allPeople")
      case None
      with 2 False show ?thesis by simp
    next
      case (Some person)
      have inv: "\<And>k x. (p1Ancestors(currentId \<mapsto> person)) k = Some x
                \<Longrightarrow> getPersonById k allPeople = Some x"
        using Some "2.prems"(2) by (auto split: if_splits)
      from "2.prems"(1) False Some
      have run: "findLcaAndPaths_ancestors allPeople (queue1 @ orEmpty (parentIds person))
                   (insert currentId visited1) (p1Ancestors(currentId \<mapsto> person)) k = Some x"
        by simp
      from "2.IH"(3)[OF False Some run inv] show ?thesis .
    qed
  qed
qed

lemma findLcaAndPaths_search_hit:
  assumes "findLcaAndPaths_search allPeople person1Id person2Id p1Ancestors queue2 visited2
             = Some result"
  shows "\<exists>currentId. findLcaAndPaths_hit allPeople person1Id person2Id p1Ancestors currentId
             = Some result"
  using assms
proof (induction allPeople person1Id person2Id p1Ancestors queue2 visited2
         rule: findLcaAndPaths_search.induct)
  case (1 allPeople person1Id person2Id p1Ancestors visited2)
  then show ?case by simp
next
  case (2 allPeople person1Id person2Id p1Ancestors currentId queue2 visited2)
  show ?case
  proof (cases "findLcaAndPaths_hit allPeople person1Id person2Id p1Ancestors currentId")
    case None
    obtain visited2' queue2' where
      enq: "findLcaAndPaths_enqueue (parentsOfId currentId allPeople) visited2 queue2
              = (visited2', queue2')"
      by (cases "findLcaAndPaths_enqueue (parentsOfId currentId allPeople) visited2 queue2")
    with "2.prems" None
    have "findLcaAndPaths_search allPeople person1Id person2Id p1Ancestors queue2' visited2'
            = Some result" by simp
    with "2.IH"[OF None enq[symmetric]] show ?thesis by simp
  next
    case (Some r)
    with "2.prems" have "r = result" by simp
    with Some show ?thesis by blast
  qed
qed

lemma findLcaAndPaths_sound:
  assumes "findLcaAndPaths person1Id person2Id allPeople = Some result"
  shows "getPersonById (id_of (lca result)) allPeople = Some (lca result)
       \<and> getPathToAncestor allPeople person1Id (id_of (lca result)) = Some (path1 result)
       \<and> getPathToAncestor allPeople person2Id (id_of (lca result)) = Some (path2 result)"
proof -
  let ?anc = "findLcaAndPaths_ancestors allPeople [person1Id] {} Map.empty"
  from assms obtain currentId where
    hit: "findLcaAndPaths_hit allPeople person1Id person2Id ?anc currentId = Some result"
    unfolding findLcaAndPaths_def Let_def by (blast dest: findLcaAndPaths_search_hit)
  then obtain a where a: "?anc currentId = Some a"
    by (auto simp: findLcaAndPaths_hit_def split: option.splits)
  then have "getPersonById currentId allPeople = Some a"
    by (rule findLcaAndPaths_ancestors_lookup) simp
  then have "getPersonById (id_of a) allPeople = Some a"
    using getPersonById_Some by fastforce
  with hit a show ?thesis
    by (auto simp: findLcaAndPaths_hit_def split: option.splits)
qed

lemma upwardPath_unique_ends:
  assumes "upwardPath allPeople s e path" "getPersonById s allPeople = Some p"
    "getPersonById e allPeople = Some q"
  shows "hd path = p \<and> last path = q"
  using assms by (simp add: upwardPath_def)

lemma parentChain_nth:
  "parentChain path \<Longrightarrow> Suc i < length path
     \<Longrightarrow> id_of (path ! Suc i) \<in> set (orEmpty (parentIds (path ! i)))"
proof (induction path arbitrary: i rule: parentChain.induct)
  case (1 p q rest)
  then show ?case by (cases i) auto
qed simp_all

section \<open>The kinship namer against the wording of the specification\<close>

lemma suffix_pick_small:
  assumes "0 \<le> v" "v < 20"
  shows "suffix_pick v = (if v = 1 then ''st'' else if v = 2 then ''nd'' else if v = 3 then ''rd'' else ''th'')"
proof -
  consider "v = 0" | "v = 1" | "v = 2" | "v = 3" | "v = 10" | "4 \<le> v \<and> v \<noteq> 10"
    using assms by linarith
  then show ?thesis
  proof cases
    case 6
    then have "(20 - v) mod 10 \<noteq> 0" using assms by presburger
    then have "js_rem (v - 20) 10 < 0"
      using assms by (simp add: js_rem_def sgn_if less_le)
    then show ?thesis using 6 by (simp add: suffix_pick_def js_index_def)
  qed (simp_all add: suffix_pick_def js_index_def js_rem_def)
qed

lemma suffix_pick_large:
  assumes "20 \<le> v"
  shows "suffix_pick v = (if v mod 10 = 1 then ''st'' else if v mod 10 = 2 then ''nd'' else if v mod 10 = 3 then ''rd'' else ''th'')"
proof -
  have "(v - 20) mod 10 = v mod 10" by presburger
  then have r: "js_rem (v - 20) 10 = v mod 10"
    using assms by (simp add: js_rem_def sgn_if)
  consider "v mod 10 = 0" | "v mod 10 = 1" | "v mod 10 = 2" | "v mod 10 = 3" | "4 \<le> v mod 10"
    using pos_mod_sign[of 10 v] by linarith
  then show ?thesis
    using assms by cases (simp_all add: suffix_pick_def js_index_def r)
qed

lemma ordinal_suffix_pick: "0 < n \<Longrightarrow> ordinal n = js_String n @ suffix_pick (js_rem n 100)"
  by (simp add: ordinal_def suffix_pick_def Let_def)

lemma suffix_pick_below_100:
  assumes "0 \<le> v"
  shows "suffix_pick v =
     (if v = 11 \<or> v = 12 \<or> v = 13 then ''th''
      else if v mod 10 = 1 then ''st''
      else if v mod 10 = 2 then ''nd''
      else if v mod 10 = 3 then ''rd''
      else ''th'')"
proof (cases "v < 20")
  case True
  note sp = suffix_pick_small[OF assms True]
  consider "v = 1" | "v = 2" | "v = 3" | "v = 11" | "v = 12" | "v = 13"
    | "v \<noteq> 1 \<and> v \<noteq> 2 \<and> v \<noteq> 3 \<and> v \<noteq> 11 \<and> v \<noteq> 12 \<and> v \<noteq> 13" by blast
  then show ?thesis
  proof cases
    case 7
    have "v mod 10 = 1 \<Longrightarrow> v = 1 \<or> v = 11" using assms True by presburger
    moreover have "v mod 10 = 2 \<Longrightarrow> v = 2 \<or> v = 12" using assms True by presburger
    moreover have "v mod 10 = 3 \<Longrightarrow> v = 3 \<or> v = 13" using assms True by presburger
    ultimately have "v mod 10 \<noteq> 1 \<and> v mod 10 \<noteq> 2 \<and> v mod 10 \<noteq> 3"
      using 7 by blast
    with 7 show ?thesis unfolding sp by simp
  qed (simp_all add: suffix_pick_def js_index_def js_rem_def)
next
  case False
  then have big: "20 \<le> v" by simp
  then have "v \<noteq> 11 \<and> v \<noteq> 12 \<and> v \<noteq> 13" by simp
  then show ?thesis unfolding suffix_pick_large[OF big] by simp
qed

lemma ordinal_refines_spec:
  assumes "0 < n"
  shows "ordinal n = js_String n @ ordinal_suffix_spec n"
proof -
  have r: "js_rem n 100 = n mod 100" using assms by (simp add: js_rem_def sgn_if)
  have m: "n mod 100 mod 10 = n mod 10" by (simp add: mod_mod_cancel)
  have "suffix_pick (n mod 100) = ordinal_suffix_spec n"
    unfolding ordinal_suffix_spec_def using suffix_pick_below_100[of "n mod 100"]
    by (simp only: m pos_mod_sign[of 100 n] simp_thms)
  then show ?thesis
    using ordinal_suffix_pick[OF assms] r by simp
qed

lemma describe_cousins:
  assumes "id_of anc \<noteq> id_of person1" "id_of anc \<noteq> id_of person2"
    and "2 \<le> int (length pathA) - 1" "2 \<le> int (length pathB) - 1"
  shows "describeBloodRelationship person1 person2 anc pathA pathB =
           Inr (ordinal (min (int (length pathA) - 1) (int (length pathB) - 1) - 1) @ '' cousin'' @
                removal_suffix_spec \<bar>(int (length pathA) - 1) - (int (length pathB) - 1)\<bar>)"
  using assms
  by (simp add: describeBloodRelationship_def Let_def removal_suffix_spec_def)

lemma describe_aunt_uncle:
  assumes "id_of anc \<noteq> id_of person1" "id_of anc \<noteq> id_of person2"
    and "min (int (length pathA) - 1) (int (length pathB) - 1) = 1"
    and "int (length pathA) - 1 \<noteq> int (length pathB) - 1"
  shows "describeBloodRelationship person1 person2 anc pathA pathB =
           Inr ((if \<bar>(int (length pathA) - 1) - (int (length pathB) - 1)\<bar> > 1 then ''Grand'' else '''') @
                (if int (length pathA) - 1 < int (length pathB) - 1 then
                   (if gender person2 = Male then ''nephew''
                    else if gender person2 = Female then ''niece'' else ''nephew/niece'')
                 else
                   (if gender person2 = Male then ''uncle''
                    else if gender person2 = Female then ''aunt'' else ''aunt/uncle'')))"
  using assms
  by (simp add: describeBloodRelationship_def Let_def)

lemma findGenericPath_loop_kind:
  assumes "findGenericPath_loop allPeople person2 queue visited = Inr (Some r)"
  shows "\<exists>path. r = PathRel (generatePathDescription path) path"
  using assms
proof (induction allPeople person2 queue visited rule: findGenericPath_loop.induct)
  case (1 allPeople person2 visited)
  then show ?case by simp
next
  case (2 allPeople person2 personId path queue visited)
  show ?case
  proof (cases "personId = id_of person2")
    case True
    with "2.prems" show ?thesis by auto
  next
    case False
    show ?thesis
    proof (cases "path = []")
      case True
      with "2.prems" False show ?thesis by simp
    next
      case ne: False
      obtain visited' queue' where
        nb: "findGenericPath_neighbors allPeople path (neighborsOf (last path)) visited queue
               = (visited', queue')"
        by (cases "findGenericPath_neighbors allPeople path (neighborsOf (last path)) visited queue")
      with "2.prems" False ne
      have "findGenericPath_loop allPeople person2 queue' visited' = Inr (Some r)" by simp
      with "2.IH"[OF False ne nb[symmetric]] show ?thesis by simp
    qed
  qed
qed

lemma findGenericPath_kind:
  assumes "findGenericPath person1 person2 allPeople = Inr (Some r)"
  shows "\<exists>path. r = PathRel (generatePathDescription path) path"
  using assms unfolding findGenericPath_def by (rule findGenericPath_loop_kind)

lemma findRelationship_inLaw_kind:
  assumes "findRelationship_inLaw person1Id person1 person2 allPeople marriage = Inr (Some r)"
  shows "\<exists>d path. r = PathRel d path"
  using assms
  by (auto simp: findRelationship_inLaw_def Let_def split: option.splits if_splits sum.splits)

lemma findRelationship_inLaws_kind:
  assumes "findRelationship_inLaws person1Id person1 person2 allPeople ms = Inr (Some r)"
  shows "\<exists>d path. r = PathRel d path"
  using assms
proof (induction ms)
  case Nil
  then show ?case by simp
next
  case (Cons marriage rest)
  then show ?case
    by (auto split: sum.splits option.splits dest: findRelationship_inLaw_kind)
qed

lemma findRelationship_blood:
  assumes "findRelationship person1Id person2Id allPeople = Inr (Some (Blood desc pathA pathB anc))"
  shows "\<exists>person1 person2.
           getPersonById person1Id allPeople = Some person1
         \<and> getPersonById person2Id allPeople = Some person2
         \<and> findLcaAndPaths person1Id person2Id allPeople
               = Some \<lparr>lca = anc, path1 = pathA, path2 = pathB\<rparr>
         \<and> describeBloodRelationship person1 person2 anc pathA pathB = Inr desc"
proof -
  from assms obtain person1 person2 where
    p1: "getPersonById person1Id allPeople = Some person1"
    and p2: "getPersonById person2Id allPeople = Some person2"
    and guard: "\<not> (person1Id = [] \<or> person2Id = [] \<or> person1Id = person2Id)"
    by (auto simp: findRelationship_def split: if_splits option.splits)
  from assms p1 p2 guard have nm: "\<not> marriedTo person1 person2Id"
    by (auto simp: findRelationship_def Let_def split: if_splits)
  show ?thesis
  proof (cases "findLcaAndPaths person1Id person2Id allPeople")
    case None
    with assms p1 p2 guard nm
    have "False"
      by (auto simp: findRelationship_def split: sum.splits option.splits
               dest: findRelationship_inLaws_kind findGenericPath_kind)
    then show ?thesis ..
  next
    case (Some lcaResult)
    with assms p1 p2 guard nm
    have "describeBloodRelationship person1 person2 (lca lcaResult) (path1 lcaResult) (path2 lcaResult)
            = Inr desc \<and> path1 lcaResult = pathA \<and> path2 lcaResult = pathB \<and> lca lcaResult = anc"
      by (auto simp: findRelationship_def split: sum.splits)
    with p1 p2 Some show ?thesis by auto
  qed
qed

lemma getPathToAncestor_same:
  assumes "getPathToAncestor allPeople i i = Some path"
  shows "length path = 1"
  using assms by (auto simp: getPathToAncestor_def split: option.splits)

lemma findRelationship_blood_distinct:
  assumes "findRelationship person1Id person2Id allPeople = Inr (Some (Blood desc pathA pathB anc))"
    and "getPersonById person1Id allPeople = Some person1"
    and "getPersonById person2Id allPeople = Some person2"
  shows "describeBloodRelationship person1 person2 anc pathA pathB = Inr desc
       \<and> (length pathA \<noteq> 1 \<longrightarrow> id_of anc \<noteq> id_of person1)
       \<and> (length pathB \<noteq> 1 \<longrightarrow> id_of anc \<noteq> id_of person2)"
proof -
  from findRelationship_blood[OF assms(1)] assms(2,3)
  have l: "findLcaAndPaths person1Id person2Id allPeople
               = Some \<lparr>lca = anc, path1 = pathA, path2 = pathB\<rparr>"
    and d: "describeBloodRelationship person1 person2 anc pathA pathB = Inr desc"
    by auto
  from findLcaAndPaths_sound[OF l]
  have a: "getPathToAncestor allPeople person1Id (id_of anc) = Some pathA"
    and b: "getPathToAncestor allPeople person2Id (id_of anc) = Some pathB" by simp_all
  have i1: "id_of person1 = person1Id" and i2: "id_of person2 = person2Id"
    using assms(2,3) by (simp_all add: getPersonById_Some)
  from a b d show ?thesis
    unfolding i1 i2 by (auto dest: getPathToAncestor_same)
qed

section \<open>Every relationship found is a connecting path\<close>

lemma connected_refl: "connected allPeople a a"
  by (simp add: connected_def)

lemma connected_trans:
  "connected allPeople a b \<Longrightarrow> connected allPeople b c \<Longrightarrow> connected allPeople a c"
  unfolding connected_def by (rule rtrancl_trans)

lemma connected_sym: "connected allPeople a b \<Longrightarrow> connected allPeople b a"
proof -
  let ?R = "{(x, y). edge allPeople x y} \<union> {(x, y). edge allPeople y x}"
  have "sym ?R" by (auto simp: sym_def)
  then have "sym (?R\<^sup>*)" by (rule sym_rtrancl)
  then show "connected allPeople a b \<Longrightarrow> connected allPeople b a"
    unfolding connected_def by (rule symD)
qed

lemma edge_connected: "edge allPeople a b \<Longrightarrow> connected allPeople a b"
  unfolding connected_def by (rule r_into_rtrancl) simp

lemma connected_step:
  "connected allPeople a b \<Longrightarrow> edge allPeople b c \<Longrightarrow> connected allPeople a c"
  by (blast intro: connected_trans edge_connected)

lemma parent_edge:
  "getPersonById a allPeople = Some p \<Longrightarrow> b \<in> set (orEmpty (parentIds p)) \<Longrightarrow> edge allPeople a b"
  by (auto simp: edge_def neighborsOf_def)

lemma marriage_edge:
  "getPersonById a allPeople = Some p \<Longrightarrow> marriedTo p b \<Longrightarrow> edge allPeople a b"
  by (auto simp: edge_def neighborsOf_def marriedTo_def list_ex_iff)

lemma not_connected_by_component:
  assumes "a \<in> S" and "b \<notin> S"
    and closed: "\<And>x y. edge allPeople x y \<Longrightarrow> (x \<in> S) = (y \<in> S)"
  shows "\<not> connected allPeople a b"
proof
  assume "connected allPeople a b"
  then have "(a, b) \<in> ({(x, y). edge allPeople x y} \<union> {(x, y). edge allPeople y x})\<^sup>*"
    by (simp add: connected_def)
  then have "b \<in> S"
    using assms(1) by (induction rule: rtrancl_induct) (auto dest: closed)
  with assms(2) show False ..
qed

lemma parentChain_connected:
  assumes "parentChain path" "list_all (inCollection allPeople) path" "path \<noteq> []"
  shows "connected allPeople (id_of (hd path)) (id_of (last path))"
  using assms
proof (induction path rule: parentChain.induct)
  case (1 p q rest)
  then have "edge allPeople (id_of p) (id_of q)"
    by (auto simp: inCollection_def intro: parent_edge)
  moreover from 1 have "connected allPeople (id_of q) (id_of (last (q # rest)))" by simp
  ultimately show ?case
    by (auto intro: connected_trans edge_connected)
next
  case (2 p)
  then show ?case by (simp add: connected_refl)
next
  case 3
  then show ?case by simp
qed

lemma upwardPath_connected:
  assumes "upwardPath allPeople startId endId path"
  shows "connected allPeople startId endId"
proof -
  from assms have "connected allPeople (id_of (hd path)) (id_of (last path))"
    by (intro parentChain_connected) (simp_all add: upwardPath_def)
  moreover from assms have "id_of (hd path) = startId" "id_of (last path) = endId"
    by (auto simp: upwardPath_def dest: getPersonById_Some)
  ultimately show ?thesis by simp
qed

lemma findLcaAndPaths_connected:
  assumes "findLcaAndPaths person1Id person2Id allPeople = Some result"
  shows "connected allPeople person1Id person2Id"
proof -
  from findLcaAndPaths_sound[OF assms]
  have "connected allPeople person1Id (id_of (lca result))"
    and "connected allPeople person2Id (id_of (lca result))"
    by (auto dest: getPathToAncestor_sound upwardPath_connected)
  then show ?thesis by (blast intro: connected_trans connected_sym)
qed

lemma findRelationship_inLaw_connected:
  assumes "findRelationship_inLaw person1Id person1 person2 allPeople marriage = Inr (Some r)"
    and "getPersonById person2Id allPeople = Some person2"
    and "marriage \<in> set (orEmpty (marriages person2))"
  shows "connected allPeople person1Id person2Id"
proof -
  from assms(1) obtain sp bloodResult where
    sp: "getPersonById (spouseId marriage) allPeople = Some sp"
    and l: "findLcaAndPaths person1Id (id_of sp) allPeople = Some bloodResult"
    by (auto simp: findRelationship_inLaw_def split: option.splits)
  from sp have "id_of sp = spouseId marriage" by (simp add: getPersonById_Some)
  with findLcaAndPaths_connected[OF l]
  have "connected allPeople person1Id (spouseId marriage)" by simp
  moreover have "edge allPeople person2Id (spouseId marriage)"
    using assms(2,3) by (auto simp: edge_def neighborsOf_def)
  ultimately show ?thesis
    by (blast intro: connected_trans connected_sym edge_connected)
qed

lemma findRelationship_inLaw_no_throw:
  "findRelationship_inLaw person1Id person1 person2 allPeople marriage \<noteq> Inl e"
  by (simp add: findRelationship_inLaw_def js_repeat_def Let_def split: option.splits)

lemma findRelationship_inLaws_no_throw:
  "findRelationship_inLaws person1Id person1 person2 allPeople ms \<noteq> Inl e"
proof (induction ms)
  case Nil
  then show ?case by simp
next
  case (Cons marriage rest)
  then show ?case
    using findRelationship_inLaw_no_throw[of person1Id person1 person2 allPeople marriage]
    by (auto split: sum.splits option.splits)
qed

lemma findRelationship_inLaws_connected:
  assumes "findRelationship_inLaws person1Id person1 person2 allPeople ms = Inr (Some r)"
    and "getPersonById person2Id allPeople = Some person2"
    and "set ms \<subseteq> set (orEmpty (marriages person2))"
  shows "connected allPeople person1Id person2Id"
  using assms
proof (induction ms)
  case Nil
  then show ?case by simp
next
  case (Cons marriage rest)
  show ?case
  proof (cases "findRelationship_inLaw person1Id person1 person2 allPeople marriage")
    case (Inl e)
    with Cons.prems show ?thesis by simp
  next
    case (Inr res)
    show ?thesis
    proof (cases res)
      case None
      with Cons Inr show ?thesis by simp
    next
      case (Some r')
      with Inr have "findRelationship_inLaw person1Id person1 person2 allPeople marriage
                       = Inr (Some r')" by simp
      then show ?thesis using Cons.prems(2,3)
        by (intro findRelationship_inLaw_connected) auto
    qed
  qed
qed

lemma findGenericPath_neighbors_inv:
  assumes "findGenericPath_neighbors allPeople path ns visited queue = (visited', queue')"
    and "list_all (genericEntry allPeople startId) queue"
    and "\<forall>n \<in> set ns. connected allPeople startId n"
  shows "list_all (genericEntry allPeople startId) queue'"
  using assms
proof (induction ns arbitrary: visited queue)
  case Nil
  then show ?case by simp
next
  case (Cons neighborId rest)
  show ?case
  proof (cases "neighborId \<in> visited")
    case True
    with Cons show ?thesis by simp
  next
    case False
    show ?thesis
    proof (cases "getPersonById neighborId allPeople")
      case None
      with Cons False show ?thesis by simp
    next
      case (Some neighborPerson)
      with Cons.prems have "genericEntry allPeople startId (neighborId, path @ [neighborPerson])"
        by (simp add: genericEntry_def)
      with Cons.prems(2)
      have inv: "list_all (genericEntry allPeople startId)
                   (queue @ [(neighborId, path @ [neighborPerson])])" by simp
      from Cons.prems(1) False Some
      have run: "findGenericPath_neighbors allPeople path rest (insert neighborId visited)
                   (queue @ [(neighborId, path @ [neighborPerson])]) = (visited', queue')"
        by simp
      from Cons.IH[OF run inv] Cons.prems(3) show ?thesis by simp
    qed
  qed
qed

lemma findGenericPath_loop_connected:
  assumes "list_all (genericEntry allPeople startId) queue"
  shows "(\<forall>e. findGenericPath_loop allPeople person2 queue visited \<noteq> Inl e)
       \<and> (\<forall>r. findGenericPath_loop allPeople person2 queue visited = Inr (Some r)
              \<longrightarrow> connected allPeople startId (id_of person2))"
  using assms
proof (induction allPeople person2 queue visited rule: findGenericPath_loop.induct)
  case (1 allPeople person2 visited)
  then show ?case by simp
next
  case (2 allPeople person2 personId path queue visited)
  from "2.prems" have entry: "genericEntry allPeople startId (personId, path)"
    and rest: "list_all (genericEntry allPeople startId) queue" by simp_all
  from entry have ne: "path \<noteq> []"
    and lst: "getPersonById personId allPeople = Some (last path)"
    and con: "connected allPeople startId personId"
    by (simp_all add: genericEntry_def)
  show ?case
  proof (cases "personId = id_of person2")
    case True
    with con show ?thesis by simp
  next
    case False
    obtain visited' queue' where
      nb: "findGenericPath_neighbors allPeople path (neighborsOf (last path)) visited queue
             = (visited', queue')"
      by (cases "findGenericPath_neighbors allPeople path (neighborsOf (last path)) visited queue")
    have "\<forall>n \<in> set (neighborsOf (last path)). connected allPeople startId n"
      using lst con by (auto simp: edge_def intro: connected_step)
    from findGenericPath_neighbors_inv[OF nb rest this]
    have inv: "list_all (genericEntry allPeople startId) queue'" .
    from "2.IH"[OF False ne nb[symmetric] inv] False ne nb show ?thesis by simp
  qed
qed

lemma findGenericPath_connected:
  assumes "getPersonById person1Id allPeople = Some person1"
  shows "(\<forall>e. findGenericPath person1 person2 allPeople \<noteq> Inl e)
       \<and> (\<forall>r. findGenericPath person1 person2 allPeople = Inr (Some r)
              \<longrightarrow> connected allPeople person1Id (id_of person2))"
proof -
  have i: "id_of person1 = person1Id" using assms by (simp add: getPersonById_Some)
  have "list_all (genericEntry allPeople person1Id) [(id_of person1, [person1])]"
    using assms by (simp add: genericEntry_def i connected_refl)
  from findGenericPath_loop_connected[OF this] show ?thesis
    by (simp add: findGenericPath_def)
qed

lemma findRelationship_unconnected:
  assumes "\<not> connected allPeople person1Id person2Id"
  shows "findRelationship person1Id person2Id allPeople = Inr None
       \<or> findRelationship person1Id person2Id allPeople
            = Inr (Some (NoneRel ''No relationship path could be found.''))"
proof (cases "person1Id = [] \<or> person2Id = [] \<or> person1Id = person2Id")
  case True
  then show ?thesis by (simp add: findRelationship_def)
next
  case guard: False
  show ?thesis
  proof (cases "getPersonById person1Id allPeople")
    case None
    with guard show ?thesis by (simp add: findRelationship_def)
  next
    case p1: (Some person1)
    show ?thesis
    proof (cases "getPersonById person2Id allPeople")
      case None
      with guard p1 show ?thesis by (simp add: findRelationship_def)
    next
      case p2: (Some person2)
      have i2: "id_of person2 = person2Id" using p2 by (simp add: getPersonById_Some)
      have nm: "\<not> marriedTo person1 person2Id"
        using assms p1 by (blast intro: marriage_edge edge_connected)
      have nl: "findLcaAndPaths person1Id person2Id allPeople = None"
        using assms by (cases "findLcaAndPaths person1Id person2Id allPeople")
          (auto dest: findLcaAndPaths_connected)
      have ni: "findRelationship_inLaws person1Id person1 person2 allPeople
                  (orEmpty (marriages person2)) = Inr None"
      proof (cases "findRelationship_inLaws person1Id person1 person2 allPeople
                      (orEmpty (marriages person2))")
        case (Inl e)
        with findRelationship_inLaws_no_throw show ?thesis by blast
      next
        case (Inr res)
        with assms p2 show ?thesis
          by (cases res) (auto dest: findRelationship_inLaws_connected)
      qed
      have ng: "findGenericPath person1 person2 allPeople = Inr None"
      proof (cases "findGenericPath person1 person2 allPeople")
        case (Inl e)
        with findGenericPath_connected[OF p1, of person2] show ?thesis by blast
      next
        case (Inr res)
        with findGenericPath_connected[OF p1, of person2] assms i2 show ?thesis
          by (cases res) auto
      qed
      from guard p1 p2 nm nl ni ng show ?thesis by (simp add: findRelationship_def)
    qed
  qed
qed

lemma getDescendants_returns: "\<exists>ds. getDescendants person allPeople = Some ds"
  using getDescendants_loop_terminates by (simp add: getDescendants_def)

lemma getAncestors_returns: "\<exists>as. getAncestors person allPeople = Some as"
  using getAncestors_loop_terminates by (simp add: getAncestors_def)

lemma getAllBloodRelativesIds_loop_returns:
  "\<exists>ids. getAllBloodRelativesIds_loop allPeople progenitors bloodRelatives = Some ids"
proof (induction progenitors arbitrary: bloodRelatives)
  case Nil
  then show ?case by simp
next
  case (Cons progenitor rest)
  obtain ds where "getDescendants progenitor allPeople = Some ds"
    using getDescendants_returns by blast
  with Cons show ?case by simp
qed

lemma getAllBloodRelativesIds_returns:
  "\<exists>ids. getAllBloodRelativesIds focalPerson allPeople = Some ids"
proof -
  obtain as where "getAncestors focalPerson allPeople = Some as"
    using getAncestors_returns by blast
  with getAllBloodRelativesIds_loop_returns[of allPeople "focalPerson # as" "[]"] show ?thesis
    by (simp only: getAllBloodRelativesIds_def option.case)
qed

lemma findAllRelationships_inLaws_unconnected:
  assumes "\<not> connected allPeople person1Id person2Id"
  shows "findAllRelationships_inLaws person1Id person2Id person2 allPeople relativeIds relationships
           = Inr relationships"
proof (induction relativeIds)
  case Nil
  then show ?case by simp
next
  case (Cons relativeId rest)
  show ?case
  proof (cases "getPersonById relativeId allPeople")
    case None
    with Cons show ?thesis by simp
  next
    case (Some bloodRelative)
    then have i: "id_of bloodRelative = relativeId" by (simp add: getPersonById_Some)
    show ?thesis
    proof (cases "id_of bloodRelative \<noteq> person1Id \<and> marriedTo bloodRelative person2Id")
      case False
      with Cons Some show ?thesis by auto
    next
      case True
      then have "edge allPeople relativeId person2Id"
        using Some by (blast intro: marriage_edge)
      with assms have "\<not> connected allPeople person1Id relativeId"
        by (blast intro: connected_step)
      from findRelationship_unconnected[OF this] Cons Some True i show ?thesis
        by auto
    qed
  qed
qed

section \<open>The in-law step for a person2 of gender Other\<close>

lemma findRelationship_inLaw_other:
  assumes "gender person2 = Other"
  shows "findRelationship_inLaw person1Id person1 person2 allPeople marriage = Inr None"
  using assms by (simp add: findRelationship_inLaw_def Let_def split: option.splits)

lemma findRelationship_inLaws_other:
  assumes "gender person2 = Other"
  shows "findRelationship_inLaws person1Id person1 person2 allPeople ms = Inr None"
  by (induction ms) (simp_all add: findRelationship_inLaw_other[OF assms])

lemma inLawTerm_last: "inLawTerm d \<Longrightarrow> last d = CHR '')''"
  by (auto simp: inLawTerm_def)

lemma generatePathDescription_last: "last (generatePathDescription path) = CHR ''.''"
  by (simp add: generatePathDescription_def)

section \<open>Evaluation on the example collections\<close>

lemma mkPerson_sel:
  "id_of (mkPerson i g ps cs ss) = i"
  "gender (mkPerson i g ps cs ss) = g"
  "parentIds (mkPerson i g ps cs ss) = Some ps"
  "childrenIds (mkPerson i g ps cs ss) = Some cs"
  "orEmpty (marriages (mkPerson i g ps cs ss)) =
     map (\<lambda>s. \<lparr>spouseId = s, date = None, place = None, status = Married\<rparr>) ss"
  "firstName (mkPerson i g ps cs ss) = i"
  "lastName (mkPerson i g ps cs ss) = None"
  "familyCast (mkPerson i g ps cs ss) = None"
  by (simp_all add: mkPerson_def orEmpty_def)

lemma orEmpty_simps: "orEmpty None = []" "orEmpty (Some xs) = xs"
  by (simp_all add: orEmpty_def)

lemmas chain_simps =
  mkPerson_sel orEmpty_simps chain_g_def chain_p_def chain_c_def threeGenerations_def

lemmas cycle_simps =
  mkPerson_sel orEmpty_simps cycle_a_def cycle_b_def parentCycle_def

lemmas cousins_simps =
  mkPerson_sel orEmpty_simps
  cousins_g_def cousins_p_def cousins_u_def cousins_a_def cousins_b_def marriedCousins_def

lemmas lca_eval =
  findLcaAndPaths_def findLcaAndPaths_hit_def getPathToAncestor_def parentsOfId_def

lemmas kin_simps =
  mkPerson_sel orEmpty_simps
  kin_g_def kin_p_def kin_u_def kin_p1_def kin_p2_def kin_u1_def kin_u2_def kin_u3_def
  kinFamily_def

lemma kin_lookup:
  "getPersonById ''p'' kinFamily = Some kin_p"
  "getPersonById ''p1'' kinFamily = Some kin_p1"
  "getPersonById ''p2'' kinFamily = Some kin_p2"
  "getPersonById ''u2'' kinFamily = Some kin_u2"
  "getPersonById ''u3'' kinFamily = Some kin_u3"
  by (simp_all add: kin_simps)

lemma kin_unmarried:
  "\<not> marriedTo kin_p x" "\<not> marriedTo kin_p1 x" "\<not> marriedTo kin_p2 x"
  by (simp_all add: kin_simps marriedTo_def)

lemmas describe_eval =
  describeBloodRelationship_def ordinal_def js_rem_def js_index_def js_String_def digit_def

lemma kin_second_cousins:
  "findRelationship ''p2'' ''u2'' kinFamily =
     Inr (Some (Blood ''2nd cousin'' [kin_p2, kin_p1, kin_p, kin_g]
                  [kin_u2, kin_u1, kin_u, kin_g] kin_g))"
proof -
  have "findLcaAndPaths ''p2'' ''u2'' kinFamily =
          Some \<lparr>lca = kin_g, path1 = [kin_p2, kin_p1, kin_p, kin_g],
                path2 = [kin_u2, kin_u1, kin_u, kin_g]\<rparr>"
    by (simp add: kin_simps lca_eval)
  moreover have "describeBloodRelationship kin_p2 kin_u2 kin_g [kin_p2, kin_p1, kin_p, kin_g]
                   [kin_u2, kin_u1, kin_u, kin_g] = Inr ''2nd cousin''"
    by (simp add: describe_eval kin_simps)
  ultimately show ?thesis
    by (simp add: findRelationship_def kin_lookup kin_unmarried)
qed

lemma kin_cousins_twice_removed:
  "findRelationship ''p1'' ''u3'' kinFamily =
     Inr (Some (Blood ''1st cousin, twice removed'' [kin_p1, kin_p, kin_g]
                  [kin_u3, kin_u2, kin_u1, kin_u, kin_g] kin_g))"
proof -
  have "findLcaAndPaths ''p1'' ''u3'' kinFamily =
          Some \<lparr>lca = kin_g, path1 = [kin_p1, kin_p, kin_g],
                path2 = [kin_u3, kin_u2, kin_u1, kin_u, kin_g]\<rparr>"
    by (simp add: kin_simps lca_eval)
  moreover have "describeBloodRelationship kin_p1 kin_u3 kin_g [kin_p1, kin_p, kin_g]
                   [kin_u3, kin_u2, kin_u1, kin_u, kin_g] = Inr ''1st cousin, twice removed''"
    by (simp add: describe_eval kin_simps)
  ultimately show ?thesis
    by (simp add: findRelationship_def kin_lookup kin_unmarried)
qed

lemma kin_grandnephew_2:
  "findRelationship ''p'' ''u2'' kinFamily =
     Inr (Some (Blood ''Grandnephew'' [kin_p, kin_g] [kin_u2, kin_u1, kin_u, kin_g] kin_g))"
proof -
  have "findLcaAndPaths ''p'' ''u2'' kinFamily =
          Some \<lparr>lca = kin_g, path1 = [kin_p, kin_g], path2 = [kin_u2, kin_u1, kin_u, kin_g]\<rparr>"
    by (simp add: kin_simps lca_eval)
  moreover have "describeBloodRelationship kin_p kin_u2 kin_g [kin_p, kin_g]
                   [kin_u2, kin_u1, kin_u, kin_g] = Inr ''Grandnephew''"
    by (simp add: describe_eval kin_simps)
  ultimately show ?thesis
    by (simp add: findRelationship_def kin_lookup kin_unmarried)
qed

lemma kin_grandnephew_3:
  "findRelationship ''p'' ''u3'' kinFamily =
     Inr (Some (Blood ''Grandnephew'' [kin_p, kin_g]
                  [kin_u3, kin_u2, kin_u1, kin_u, kin_g] kin_g))"
proof -
  have "findLcaAndPaths ''p'' ''u3'' kinFamily =
          Some \<lparr>lca = kin_g, path1 = [kin_p, kin_g],
                path2 = [kin_u3, kin_u2, kin_u1, kin_u, kin_g]\<rparr>"
    by (simp add: kin_simps lca_eval)
  moreover have "describeBloodRelationship kin_p kin_u3 kin_g [kin_p, kin_g]
                   [kin_u3, kin_u2, kin_u1, kin_u, kin_g] = Inr ''Grandnephew''"
    by (simp add: describe_eval kin_simps)
  ultimately show ?thesis
    by (simp add: findRelationship_def kin_lookup kin_unmarried)
qed

lemmas island_simps =
  mkPerson_sel orEmpty_simps island_a1_def island_a2_def island_b1_def island_b2_def
  twoIslands_def

lemma twoIslands_unconnected: "\<not> connected twoIslands ''a2'' ''b1''"
proof (rule not_connected_by_component[where S = "{''a1'', ''a2''}"])
  fix x y
  assume "edge twoIslands x y"
  then show "(x \<in> {''a1'', ''a2''}) = (y \<in> {''a1'', ''a2''})"
    by (auto simp: edge_def island_simps neighborsOf_def split: if_splits)
qed simp_all

lemmas inlaw_simps =
  mkPerson_sel orEmpty_simps inlaw_g_def inlaw_s_def inlaw_x_def inLawFamily_def

lemma inlaw_generic_path:
  "findGenericPath inlaw_g inlaw_x inLawFamily =
     Inr (Some (PathRel ''g is the father of s, who is the husband of x.''
                  [inlaw_g, inlaw_s, inlaw_x]))"
  by (simp add: findGenericPath_def inlaw_simps neighborsOf_def generatePathDescription_def
        getPathSegmentDescription_def getFullName_def List.map_filter_def marriedTo_def)

lemma inlaw_lca:
  "findLcaAndPaths ''g'' ''x'' inLawFamily = None"
  "findLcaAndPaths ''g'' ''s'' inLawFamily =
     Some \<lparr>lca = inlaw_g, path1 = [inlaw_g], path2 = [inlaw_s, inlaw_g]\<rparr>"
  by (simp_all add: inlaw_simps lca_eval)

section \<open>The logged calls and the results agree\<close>

lemma findRelationship_inLaws_steps_result:
  "snd (findRelationship_inLaws_steps person1Id person1 person2 allPeople ms)
     = findRelationship_inLaws person1Id person1 person2 allPeople ms"
  by (induction ms)
     (auto simp: findRelationship_inLaw_steps_def split: sum.splits option.splits prod.splits)

lemma findRelationship_steps_result:
  "snd (findRelationship_steps person1Id person2Id allPeople)
     = findRelationship person1Id person2Id allPeople"
proof -
  have "\<And>person1 person2 ms steps outcome.
          findRelationship_inLaws_steps person1Id person1 person2 allPeople ms = (steps, outcome)
          \<Longrightarrow> findRelationship_inLaws person1Id person1 person2 allPeople ms = outcome"
    using findRelationship_inLaws_steps_result by (metis snd_conv)
  then show ?thesis
    by (auto simp: findRelationship_steps_def findRelationship_def Let_def
             split: option.splits sum.splits prod.splits)
qed

lemma findAllRelationships_inLaws_steps_result:
  "snd (findAllRelationships_inLaws_steps person1Id person2Id person2 allPeople relativeIds
          relationships)
     = findAllRelationships_inLaws person1Id person2Id person2 allPeople relativeIds relationships"
proof (induction relativeIds arbitrary: relationships)
  case Nil
  then show ?case by simp
next
  case (Cons relativeId rest)
  have r: "\<And>b steps outcome. findRelationship_steps person1Id b allPeople = (steps, outcome)
            \<Longrightarrow> findRelationship person1Id b allPeople = outcome"
    using findRelationship_steps_result by (metis snd_conv)
  have ih: "\<And>relationships later outcome.
            findAllRelationships_inLaws_steps person1Id person2Id person2 allPeople rest
              relationships = (later, outcome)
            \<Longrightarrow> findAllRelationships_inLaws person1Id person2Id person2 allPeople rest
                  relationships = outcome"
    using Cons.IH by (metis snd_conv)
  show ?case
    by (auto simp: Let_def dest!: r ih
             split: option.splits sum.splits prod.splits Relationship.splits)
qed

lemma findAllRelationships_steps_result:
  "map_option snd (findAllRelationships_steps person1Id person2Id allPeople)
     = findAllRelationships person1Id person2Id allPeople"
proof -
  have r: "\<And>steps outcome. findRelationship_steps person1Id person2Id allPeople = (steps, outcome)
            \<Longrightarrow> findRelationship person1Id person2Id allPeople = outcome"
    using findRelationship_steps_result by (metis snd_conv)
  have l: "\<And>person2 ids rels later outcome.
            findAllRelationships_inLaws_steps person1Id person2Id person2 allPeople ids rels
              = (later, outcome)
            \<Longrightarrow> findAllRelationships_inLaws person1Id person2Id person2 allPeople ids rels
                  = outcome"
    using findAllRelationships_inLaws_steps_result by (metis snd_conv)
  show ?thesis
    by (auto simp: findAllRelationships_steps_def findAllRelationships_def Let_def
             dest!: r l split: option.splits sum.splits prod.splits)
qed

lemma chain_grandfather_steps:
  "findRelationship_steps ''c'' ''g'' threeGenerations =
     ([Lookup ''c'', Lookup ''g'', CallFindLcaAndPaths ''c'' ''g''],
      Inr (Some (Blood ''Grandfather'' [chain_c, chain_p, chain_g] [chain_g] chain_g)))"
proof -
  have "findLcaAndPaths ''c'' ''g'' threeGenerations =
          Some \<lparr>lca = chain_g, path1 = [chain_c, chain_p, chain_g], path2 = [chain_g]\<rparr>"
    by (simp add: chain_simps lca_eval)
  moreover have "describeBloodRelationship chain_c chain_g chain_g [chain_c, chain_p, chain_g]
                   [chain_g] = Inr ''Grandfather''"
    by (simp add: describeBloodRelationship_def chain_simps)
  moreover have "getPersonById ''c'' threeGenerations = Some chain_c"
    "getPersonById ''g'' threeGenerations = Some chain_g" "\<not> marriedTo chain_c ''g''"
    by (simp_all add: chain_simps marriedTo_def)
  ultimately show ?thesis by (simp add: findRelationship_steps_def)
qed

lemma findRelationship_steps_empty:
  "(fst (findRelationship_steps person1Id person2Id allPeople) = [])
     = (person1Id = [] \<or> person2Id = [] \<or> person1Id = person2Id)"
  by (auto simp: findRelationship_steps_def Let_def split: option.splits sum.splits prod.splits)

section \<open>The claims\<close>

text \<open>
  C1. In a three-generation chain (\<open>C\<close> has the single parent \<open>P\<close>, \<open>P\<close> the single
  parent \<open>G\<close>, \<open>G\<close> no parent) \<open>findLcaAndPaths\<close> called with person1 = \<open>C\<close> and
  person2 = \<open>G\<close> returns \<open>{lca: G, path1: [C, P, G], path2: [G]}\<close>, the description for
  these paths is Grandfather for a male \<open>G\<close> and Grandmother for a female \<open>G\<close>, and
  \<open>findRelationship\<close> returns the blood relationship with that description (when \<open>C\<close>
  is not married to \<open>G\<close> and both ids are non-empty).
\<close>

theorem three_generation_lca:
  assumes C: "getPersonById c allPeople = Some C"
    and P: "getPersonById p allPeople = Some P"
    and G: "getPersonById g allPeople = Some G"
    and ne: "c \<noteq> p" "p \<noteq> g" "c \<noteq> g"
    and pc: "orEmpty (parentIds C) = [p]"
    and pp: "orEmpty (parentIds P) = [g]"
    and pg: "orEmpty (parentIds G) = []"
  shows "findLcaAndPaths c g allPeople = Some \<lparr>lca = G, path1 = [C, P, G], path2 = [G]\<rparr>
       \<and> describeBloodRelationship C G G [C, P, G] [G] =
           Inr (if gender G = Male then ''Grandfather''
                else if gender G = Female then ''Grandmother'' else ''Grandparent'')
       \<and> (c \<noteq> [] \<and> g \<noteq> [] \<and> \<not> marriedTo C g \<longrightarrow>
            findRelationship c g allPeople =
              Inr (Some (Blood (if gender G = Male then ''Grandfather''
                                else if gender G = Female then ''Grandmother''
                                else ''Grandparent'') [C, P, G] [G] G)))"
proof -
  have idG: "id_of G = g" and idC: "id_of C = c"
    using G C by (simp_all add: getPersonById_Some)
  have anc: "findLcaAndPaths_ancestors allPeople [c] {} Map.empty = [c \<mapsto> C, p \<mapsto> P, g \<mapsto> G]"
    using assms by simp
  have p1: "getPathToAncestor allPeople c g = Some [C, P, G]"
    using assms by (simp add: getPathToAncestor_def parentsOfId_def)
  have p2: "getPathToAncestor allPeople g g = Some [G]"
    using assms by (simp add: getPathToAncestor_def)
  have found: "findLcaAndPaths c g allPeople = Some \<lparr>lca = G, path1 = [C, P, G], path2 = [G]\<rparr>"
    unfolding findLcaAndPaths_def anc Let_def
    using ne by (simp add: findLcaAndPaths_hit_def idG p1 p2)
  have named: "describeBloodRelationship C G G [C, P, G] [G] =
           Inr (if gender G = Male then ''Grandfather''
                else if gender G = Female then ''Grandmother'' else ''Grandparent'')"
    using ne by (simp add: describeBloodRelationship_def idG idC)
  show ?thesis
    using C G ne by (simp add: found named findRelationship_def)
qed

theorem three_generation_lca_witness:
  "findLcaAndPaths ''c'' ''g'' threeGenerations =
     Some \<lparr>lca = chain_g, path1 = [chain_c, chain_p, chain_g], path2 = [chain_g]\<rparr>
   \<and> describeBloodRelationship chain_c chain_g chain_g [chain_c, chain_p, chain_g] [chain_g] =
       Inr ''Grandfather''
   \<and> findRelationship ''c'' ''g'' threeGenerations =
       Inr (Some (Blood ''Grandfather'' [chain_c, chain_p, chain_g] [chain_g] chain_g))"
proof -
  have C: "getPersonById ''c'' threeGenerations = Some chain_c"
    and P: "getPersonById ''p'' threeGenerations = Some chain_p"
    and G: "getPersonById ''g'' threeGenerations = Some chain_g"
    by (simp_all add: chain_simps)
  have ps: "orEmpty (parentIds chain_c) = [''p'']" "orEmpty (parentIds chain_p) = [''g'']"
    "orEmpty (parentIds chain_g) = []"
    by (simp_all add: chain_simps)
  have m: "gender chain_g = Male" "\<not> marriedTo chain_c ''g''"
    by (simp_all add: chain_simps marriedTo_def)
  from three_generation_lca[OF C P G _ _ _ ps] m show ?thesis by simp
qed

text \<open>
  C3. When person1's marriages contain person2's id (both people exist in the collection
  under distinct non-empty ids), \<open>findRelationship\<close> returns the path-kind result with the
  single term Husband, Wife or Spouse by person2's gender and the two-person path, whatever
  common ancestors the two may have: the marriage check comes before the blood check.
\<close>

theorem marriage_precedence:
  assumes "getPersonById a allPeople = Some A" and "getPersonById b allPeople = Some B"
    and "a \<noteq> []" and "b \<noteq> []" and "a \<noteq> b" and "marriedTo A b"
  shows "findRelationship a b allPeople =
           Inr (Some (PathRel (if gender B = Male then ''Husband''
                               else if gender B = Female then ''Wife'' else ''Spouse'') [A, B]))"
  using assms by (simp add: findRelationship_def)

theorem marriage_precedence_witness:
  "findRelationship ''a'' ''b'' marriedCousins = Inr (Some (PathRel ''Wife'' [cousins_a, cousins_b]))
   \<and> findLcaAndPaths ''a'' ''b'' marriedCousins =
       Some \<lparr>lca = cousins_g, path1 = [cousins_a, cousins_p, cousins_g],
             path2 = [cousins_b, cousins_u, cousins_g]\<rparr>"
proof -
  have A: "getPersonById ''a'' marriedCousins = Some cousins_a"
    and B: "getPersonById ''b'' marriedCousins = Some cousins_b"
    by (simp_all add: cousins_simps)
  have m: "marriedTo cousins_a ''b''" "gender cousins_b = Female"
    by (simp_all add: cousins_simps marriedTo_def)
  have shared: "findLcaAndPaths ''a'' ''b'' marriedCousins =
       Some \<lparr>lca = cousins_g, path1 = [cousins_a, cousins_p, cousins_g],
             path2 = [cousins_b, cousins_u, cousins_g]\<rparr>"
    by (simp add: cousins_simps lca_eval)
  from marriage_precedence[OF A B _ _ _ m(1)] m(2) shared show ?thesis by simp
qed

text \<open>
  C5. Whenever \<open>findLcaAndPaths\<close> returns a result, every consecutive step of \<open>path1\<close>
  and of \<open>path2\<close> is a child-to-parent edge (\<open>path[i+1].id\<close> is one of the
  \<open>parentIds\<close> of \<open>path[i]\<close>), every person on the paths is a person of the collection,
  \<open>path1\<close> starts at person1, \<open>path2\<close> starts at person2, and both end at the \<open>lca\<close>.
\<close>

theorem lca_paths_are_parent_edges:
  assumes "findLcaAndPaths person1Id person2Id allPeople = Some result"
  shows "(\<forall>i. Suc i < length (path1 result) \<longrightarrow>
            id_of (path1 result ! Suc i) \<in> set (orEmpty (parentIds (path1 result ! i))))
       \<and> (\<forall>i. Suc i < length (path2 result) \<longrightarrow>
            id_of (path2 result ! Suc i) \<in> set (orEmpty (parentIds (path2 result ! i))))
       \<and> (\<forall>p \<in> set (path1 result) \<union> set (path2 result). getPersonById (id_of p) allPeople = Some p)
       \<and> path1 result \<noteq> [] \<and> path2 result \<noteq> []
       \<and> getPersonById person1Id allPeople = Some (hd (path1 result))
       \<and> getPersonById person2Id allPeople = Some (hd (path2 result))
       \<and> last (path1 result) = lca result
       \<and> last (path2 result) = lca result"
proof -
  from findLcaAndPaths_sound[OF assms]
  have l: "getPersonById (id_of (lca result)) allPeople = Some (lca result)"
    and p1: "getPathToAncestor allPeople person1Id (id_of (lca result)) = Some (path1 result)"
    and p2: "getPathToAncestor allPeople person2Id (id_of (lca result)) = Some (path2 result)"
    by simp_all
  from getPathToAncestor_sound[OF p1]
  have u1: "upwardPath allPeople person1Id (id_of (lca result)) (path1 result)" .
  from getPathToAncestor_sound[OF p2]
  have u2: "upwardPath allPeople person2Id (id_of (lca result)) (path2 result)" .
  have c1: "parentChain (path1 result)" and c2: "parentChain (path2 result)"
    using u1 u2 by (simp_all add: upwardPath_def)
  have m: "\<forall>p \<in> set (path1 result) \<union> set (path2 result). getPersonById (id_of p) allPeople = Some p"
    using u1 u2 by (auto simp: upwardPath_def list_all_iff inCollection_def)
  show ?thesis
    using u1 u2 l m parentChain_nth[OF c1] parentChain_nth[OF c2]
    by (simp add: upwardPath_def)
qed

theorem lca_paths_are_parent_edges_witness:
  "findLcaAndPaths ''a'' ''b'' marriedCousins =
       Some \<lparr>lca = cousins_g, path1 = [cousins_a, cousins_p, cousins_g],
             path2 = [cousins_b, cousins_u, cousins_g]\<rparr>
   \<and> id_of cousins_p \<in> set (orEmpty (parentIds cousins_a))
   \<and> id_of cousins_g \<in> set (orEmpty (parentIds cousins_p))
   \<and> id_of cousins_u \<in> set (orEmpty (parentIds cousins_b))
   \<and> id_of cousins_g \<in> set (orEmpty (parentIds cousins_u))
   \<and> getPersonById ''a'' marriedCousins = Some cousins_a
   \<and> getPersonById ''b'' marriedCousins = Some cousins_b"
proof -
  let ?r = "\<lparr>lca = cousins_g, path1 = [cousins_a, cousins_p, cousins_g],
             path2 = [cousins_b, cousins_u, cousins_g]\<rparr>"
  have r: "findLcaAndPaths ''a'' ''b'' marriedCousins = Some ?r"
    by (simp add: cousins_simps lca_eval)
  note t = lca_paths_are_parent_edges[OF r]
  from t have s1: "\<forall>i. Suc i < length (path1 ?r) \<longrightarrow>
            id_of (path1 ?r ! Suc i) \<in> set (orEmpty (parentIds (path1 ?r ! i)))"
    and s2: "\<forall>i. Suc i < length (path2 ?r) \<longrightarrow>
            id_of (path2 ?r ! Suc i) \<in> set (orEmpty (parentIds (path2 ?r ! i)))"
    and h1: "getPersonById ''a'' marriedCousins = Some (hd (path1 ?r))"
    and h2: "getPersonById ''b'' marriedCousins = Some (hd (path2 ?r))"
    by blast+
  from s1[rule_format, of 0] s1[rule_format, of 1] s2[rule_format, of 0] s2[rule_format, of 1]
    h1 h2 r
  show ?thesis by simp
qed

text \<open>
  C6. The ancestor walks return on every person collection: for every person and every
  collection, \<open>getAncestors\<close> and \<open>getAncestorsHierarchically\<close> return a list, and so do
  the descendant walk \<open>getDescendants\<close> and the operations built on the walks
  (\<open>getAllBloodRelativesIds\<close>, \<open>findAllRelationships\<close>). On the collection in which
  \<open>a\<close> and \<open>b\<close> are each other's parent the walks from \<open>a\<close> return \<open>[b, a]\<close>, with
  levels 1 and 2. (The loops of \<open>findLcaAndPaths\<close>, \<open>getPathToAncestor\<close> and
  \<open>findGenericPath\<close> are total functions: each carries its termination proof, by the
  number of ids not yet in its visited-set.)
\<close>

theorem ancestor_walks_terminate:
  "(\<exists>ancestors. getAncestors person allPeople = Some ancestors)
   \<and> (\<exists>results. getAncestorsHierarchically person allPeople = Some results)
   \<and> (\<exists>descendants. getDescendants person allPeople = Some descendants)
   \<and> (\<exists>ids. getAllBloodRelativesIds person allPeople = Some ids)
   \<and> (\<exists>outcome. findAllRelationships person1Id person2Id allPeople = Some outcome)
   \<and> getAncestors cycle_a parentCycle = Some [cycle_b, cycle_a]
   \<and> getAncestorsHierarchically cycle_a parentCycle = Some [(cycle_b, 1), (cycle_a, 2)]"
proof -
  have "\<exists>outcome. findAllRelationships person1Id person2Id allPeople = Some outcome"
  proof (cases "getPersonById person1Id allPeople")
    case None
    then show ?thesis by (simp add: findAllRelationships_def)
  next
    case (Some person1)
    obtain ids where "getAllBloodRelativesIds person1 allPeople = Some ids"
      using getAllBloodRelativesIds_returns by blast
    with Some show ?thesis
      by (simp add: findAllRelationships_def Let_def split: option.splits sum.splits)
  qed
  moreover note getAllBloodRelativesIds_returns[of person allPeople]
  moreover
  have "\<exists>results. getAncestorsHierarchically person allPeople = Some results"
    using getAncestorsHierarchically_loop_terminates
    by (cases "parentIds person") (simp_all add: getAncestorsHierarchically_def)
  moreover have "getAncestors cycle_a parentCycle = Some [cycle_b, cycle_a]"
    by (simp add: getAncestors_def cycle_simps getAncestors_loop_Nil getAncestors_loop_Cons)
  moreover have "getAncestorsHierarchically cycle_a parentCycle = Some [(cycle_b, 1), (cycle_a, 2)]"
    by (simp add: getAncestorsHierarchically_def cycle_simps
          getAncestorsHierarchically_loop_Nil getAncestorsHierarchically_loop_Cons)
  ultimately show ?thesis
    using getAncestors_loop_terminates getDescendants_loop_terminates
    by (simp add: getAncestors_def getDescendants_def)
qed

theorem ancestor_walks_terminate_witness:
  "(\<exists>ancestors. getAncestors cycle_a parentCycle = Some ancestors)
   \<and> (\<exists>results. getAncestorsHierarchically cycle_a parentCycle = Some results)
   \<and> (\<exists>descendants. getDescendants cycle_a parentCycle = Some descendants)
   \<and> (\<exists>ids. getAllBloodRelativesIds cycle_a parentCycle = Some ids)
   \<and> (\<exists>outcome. findAllRelationships ''a'' ''b'' parentCycle = Some outcome)
   \<and> getAncestors cycle_a parentCycle = Some [cycle_b, cycle_a]
   \<and> getAncestorsHierarchically cycle_a parentCycle = Some [(cycle_b, 1), (cycle_a, 2)]"
  by (rule ancestor_walks_terminate)

text \<open>
  C8. For every collection and every id \<open>x\<close>, \<open>findRelationship(x, x, people)\<close> returns
  \<open>null\<close> and makes no call at all on the way: no \<open>getPersonById\<close> lookup, and no call
  of \<open>findLcaAndPaths\<close> or \<open>findGenericPath\<close>, the functions that run the breadth-first
  searches; its call log is empty exactly when the guard of line 289 rejects the query.
  \<open>findAllRelationships(x, x, people)\<close> returns the empty list after the two lookups of
  lines 355 and 356, which come before its test of line 358, and calls nothing else. The
  logging functions return the results of \<open>findRelationship\<close> and
  \<open>findAllRelationships\<close> on every input; on the three-generation chain the query for
  \<open>c\<close> and \<open>g\<close> logs both lookups and the call of \<open>findLcaAndPaths\<close>.
\<close>

theorem self_query_rejected:
  "findRelationship_steps x x allPeople = ([], Inr None)
   \<and> findRelationship x x allPeople = Inr None
   \<and> findAllRelationships_steps x x allPeople = Some ([Lookup x, Lookup x], Inr [])
   \<and> findAllRelationships x x allPeople = Some (Inr [])
   \<and> (\<forall>a b. (fst (findRelationship_steps a b allPeople) = []) = (a = [] \<or> b = [] \<or> a = b))
   \<and> (\<forall>a b. snd (findRelationship_steps a b allPeople) = findRelationship a b allPeople)
   \<and> (\<forall>a b. map_option snd (findAllRelationships_steps a b allPeople)
              = findAllRelationships a b allPeople)
   \<and> findRelationship_steps ''c'' ''g'' threeGenerations =
       ([Lookup ''c'', Lookup ''g'', CallFindLcaAndPaths ''c'' ''g''],
        Inr (Some (Blood ''Grandfather'' [chain_c, chain_p, chain_g] [chain_g] chain_g)))"
proof -
  have "findRelationship_steps x x allPeople = ([], Inr None)"
    by (simp add: findRelationship_steps_def)
  moreover have "findRelationship x x allPeople = Inr None"
    by (simp add: findRelationship_def)
  moreover have "findAllRelationships_steps x x allPeople = Some ([Lookup x, Lookup x], Inr [])"
    by (simp add: findAllRelationships_steps_def Let_def split: option.splits)
  moreover have "findAllRelationships x x allPeople = Some (Inr [])"
    by (simp add: findAllRelationships_def split: option.splits)
  ultimately show ?thesis
    using findRelationship_steps_result findAllRelationships_steps_result
      findRelationship_steps_empty chain_grandfather_steps
    by simp
qed

theorem self_query_rejected_witness:
  "findRelationship_steps ''a'' ''a'' marriedCousins = ([], Inr None)
   \<and> findRelationship ''a'' ''a'' marriedCousins = Inr None
   \<and> findAllRelationships_steps ''a'' ''a'' marriedCousins
       = Some ([Lookup ''a'', Lookup ''a''], Inr [])
   \<and> findAllRelationships ''a'' ''a'' marriedCousins = Some (Inr [])"
  using self_query_rejected[of "''a''" marriedCousins] by blast

text \<open>
  C2. Whenever \<open>findRelationship\<close> returns a blood relationship whose two paths to the
  common ancestor both have generation distance at least 2, the description is the ordinal
  of \<open>min(d1, d2) - 1\<close> (suffix st, nd, rd by the last digit, th otherwise and for 11 to
  13), followed by \<open>cousin\<close> and, when \<open>d1\<close> differs from \<open>d2\<close>, by once removed, twice
  removed or n times removed for \<open>n = |d1 - d2|\<close>. Distances 3 and 3 give 2nd cousin,
  distances 2 and 4 give 1st cousin, twice removed.
\<close>

theorem cousin_description:
  assumes "findRelationship person1Id person2Id allPeople
             = Inr (Some (Blood desc pathA pathB anc))"
    and "int (length pathA) - 1 = d1" and "int (length pathB) - 1 = d2"
    and "2 \<le> d1" and "2 \<le> d2"
  shows "desc = cousin_description_spec d1 d2
       \<and> (d1 = 3 \<and> d2 = 3 \<longrightarrow> desc = ''2nd cousin'')
       \<and> (d1 = 2 \<and> d2 = 4 \<longrightarrow> desc = ''1st cousin, twice removed'')"
proof -
  from findRelationship_blood[OF assms(1)] obtain person1 person2 where
    p1: "getPersonById person1Id allPeople = Some person1"
    and p2: "getPersonById person2Id allPeople = Some person2" by blast
  from findRelationship_blood_distinct[OF assms(1) p1 p2] assms(2-5)
  have d: "describeBloodRelationship person1 person2 anc pathA pathB = Inr desc"
    and n1: "id_of anc \<noteq> id_of person1" and n2: "id_of anc \<noteq> id_of person2"
    by auto
  have pos: "0 < min d1 d2 - 1" using assms(4,5) by simp
  from describe_cousins[OF n1 n2, of pathA pathB] assms(4,5) d
  have "desc = ordinal (min d1 d2 - 1) @ '' cousin'' @ removal_suffix_spec \<bar>d1 - d2\<bar>"
    unfolding assms(2,3) by simp
  then have spec: "desc = cousin_description_spec d1 d2"
    by (simp add: ordinal_refines_spec[OF pos] cousin_description_spec_def)
  have "cousin_description_spec 3 3 = ''2nd cousin''"
    by (simp add: cousin_description_spec_def ordinal_suffix_spec_def removal_suffix_spec_def
          js_String_def digit_def)
  moreover have "cousin_description_spec 2 4 = ''1st cousin, twice removed''"
    by (simp add: cousin_description_spec_def ordinal_suffix_spec_def removal_suffix_spec_def
          js_String_def digit_def)
  ultimately show ?thesis using spec by simp
qed

theorem cousin_description_witness:
  "findRelationship ''p2'' ''u2'' kinFamily =
     Inr (Some (Blood ''2nd cousin'' [kin_p2, kin_p1, kin_p, kin_g]
                  [kin_u2, kin_u1, kin_u, kin_g] kin_g))
   \<and> ''2nd cousin'' = cousin_description_spec 3 3
   \<and> findRelationship ''p1'' ''u3'' kinFamily =
     Inr (Some (Blood ''1st cousin, twice removed'' [kin_p1, kin_p, kin_g]
                  [kin_u3, kin_u2, kin_u1, kin_u, kin_g] kin_g))
   \<and> ''1st cousin, twice removed'' = cousin_description_spec 2 4"
proof -
  from cousin_description[OF kin_second_cousins, of 3 3]
  have a: "''2nd cousin'' = cousin_description_spec 3 3" by simp
  from cousin_description[OF kin_cousins_twice_removed, of 2 4]
  have b: "''1st cousin, twice removed'' = cousin_description_spec 2 4" by simp
  from a b kin_second_cousins kin_cousins_twice_removed show ?thesis by blast
qed

text \<open>
  C4 (as amended). Whenever \<open>findRelationship\<close> returns a blood relationship with
  \<open>min(d1, d2) = 1\<close> and \<open>d1\<close> different from \<open>d2\<close>, the term is nephew or niece (by
  person2's gender, nephew/niece for Other) when person1 is the one closer to the common
  ancestor, and uncle or aunt (aunt/uncle for Other) when person2 is; the term carries the
  prefix \<open>Grand\<close>, without a hyphen and exactly once, when \<open>|d1 - d2|\<close> is 2 or more,
  and no prefix when it is 1.
\<close>

theorem aunt_uncle_description:
  assumes "findRelationship person1Id person2Id allPeople
             = Inr (Some (Blood desc pathA pathB anc))"
    and "getPersonById person2Id allPeople = Some person2"
    and "int (length pathA) - 1 = d1" and "int (length pathB) - 1 = d2"
    and "min d1 d2 = 1" and "d1 \<noteq> d2"
  shows "desc =
           (if \<bar>d1 - d2\<bar> > 1 then ''Grand'' else '''') @
           (if d1 < d2 then
              (if gender person2 = Male then ''nephew''
               else if gender person2 = Female then ''niece'' else ''nephew/niece'')
            else
              (if gender person2 = Male then ''uncle''
               else if gender person2 = Female then ''aunt'' else ''aunt/uncle''))"
proof -
  from findRelationship_blood[OF assms(1)] obtain person1 where
    p1: "getPersonById person1Id allPeople = Some person1" by blast
  from findRelationship_blood_distinct[OF assms(1) p1 assms(2)] assms(3-6)
  have d: "describeBloodRelationship person1 person2 anc pathA pathB = Inr desc"
    and n1: "id_of anc \<noteq> id_of person1" and n2: "id_of anc \<noteq> id_of person2"
    by auto
  from describe_aunt_uncle[OF n1 n2, of pathA pathB] assms(5,6) d
  show ?thesis unfolding assms(3,4) by simp
qed

theorem aunt_uncle_description_witness:
  "findRelationship ''p'' ''u2'' kinFamily =
     Inr (Some (Blood ''Grandnephew'' [kin_p, kin_g] [kin_u2, kin_u1, kin_u, kin_g] kin_g))
   \<and> ''Grandnephew'' = ''Grand'' @ ''nephew''"
proof -
  have g: "gender kin_u2 = Male" by (simp add: kin_simps)
  from aunt_uncle_description[OF kin_grandnephew_2 kin_lookup(4), of 1 3] g
  have "''Grandnephew'' = ''Grand'' @ ''nephew''" by simp
  with kin_grandnephew_2 show ?thesis by blast
qed

text \<open>
  C4 as stated fails: with person1 one generation and person2 four generations below the
  common ancestor (removal 3) the claim asks for two \<open>Grand-\<close> prefixes; the code returns
  \<open>Grandnephew\<close>.
\<close>

theorem grand_prefix_counterexample:
  "findRelationship ''p'' ''u3'' kinFamily =
     Inr (Some (Blood ''Grandnephew'' [kin_p, kin_g]
                  [kin_u3, kin_u2, kin_u1, kin_u, kin_g] kin_g))
   \<and> aunt_uncle_term_spec (gender kin_u3) 1 4 = ''Grand-Grand-nephew''
   \<and> ''Grandnephew'' \<noteq> aunt_uncle_term_spec (gender kin_u3) 1 4"
proof -
  have "gender kin_u3 = Male" by (simp add: kin_simps)
  then have "aunt_uncle_term_spec (gender kin_u3) 1 4 = ''Grand-Grand-nephew''"
    by (simp add: aunt_uncle_term_spec_def numeral_2_eq_2)
  with kin_grandnephew_3 show ?thesis by simp
qed

text \<open>
  C7. For two people of the collection (under non-empty ids) that no path of parent, child
  or spouse edges connects, in either direction of the edges, \<open>findRelationship\<close> returns
  the none-kind result with the fixed message, and \<open>findAllRelationships\<close> returns the
  list that holds only that result; neither throws.
\<close>

theorem no_path_gives_none:
  assumes "getPersonById person1Id allPeople = Some person1"
    and "getPersonById person2Id allPeople = Some person2"
    and "person1Id \<noteq> []" and "person2Id \<noteq> []"
    and "\<not> connected allPeople person1Id person2Id"
  shows "findRelationship person1Id person2Id allPeople
           = Inr (Some (NoneRel ''No relationship path could be found.''))
       \<and> findAllRelationships person1Id person2Id allPeople
           = Some (Inr [NoneRel ''No relationship path could be found.''])"
proof -
  from assms(5) have ne: "person1Id \<noteq> person2Id"
    using connected_refl by blast
  have "findRelationship person1Id person2Id allPeople \<noteq> Inr None"
    using assms(1-4) ne
    by (auto simp: findRelationship_def Let_def split: option.splits sum.splits)
  with findRelationship_unconnected[OF assms(5)]
  have primary: "findRelationship person1Id person2Id allPeople
                   = Inr (Some (NoneRel ''No relationship path could be found.''))"
    by blast
  obtain ids where ids: "getAllBloodRelativesIds person1 allPeople = Some ids"
    using getAllBloodRelativesIds_returns by blast
  have "findAllRelationships person1Id person2Id allPeople
          = Some (Inr [NoneRel ''No relationship path could be found.''])"
    using assms(1,2) ne primary ids findAllRelationships_inLaws_unconnected[OF assms(5)]
    by (simp add: findAllRelationships_def addRelationship_def)
  with primary show ?thesis by simp
qed

theorem no_path_gives_none_witness:
  "findRelationship ''a2'' ''b1'' twoIslands
     = Inr (Some (NoneRel ''No relationship path could be found.''))
   \<and> findAllRelationships ''a2'' ''b1'' twoIslands
     = Some (Inr [NoneRel ''No relationship path could be found.''])"
proof -
  have l: "getPersonById ''a2'' twoIslands = Some island_a2"
    "getPersonById ''b1'' twoIslands = Some island_b1"
    by (simp_all add: island_simps)
  from no_path_gives_none[OF l _ _ twoIslands_unconnected] show ?thesis by simp
qed

text \<open>
  C10. When person2's gender is Other (both people in the collection under distinct
  non-empty ids, no direct marriage, no common ancestor), the in-law step returns nothing,
  whoever person2 is married to: \<open>findRelationship\<close> returns what the generic path finder
  returns, or the none-kind result, and its description is never one of the in-law terms
  (Son's Wife, Daughter's Husband and their Grand and Great- variants).
\<close>

theorem other_gender_skips_in_law:
  assumes "getPersonById person1Id allPeople = Some person1"
    and "getPersonById person2Id allPeople = Some person2"
    and "person1Id \<noteq> []" and "person2Id \<noteq> []" and "person1Id \<noteq> person2Id"
    and "gender person2 = Other"
    and "\<not> marriedTo person1 person2Id"
    and "findLcaAndPaths person1Id person2Id allPeople = None"
  shows "findRelationship_inLaws person1Id person1 person2 allPeople (orEmpty (marriages person2))
           = Inr None
       \<and> findRelationship person1Id person2Id allPeople =
           (case findGenericPath person1 person2 allPeople of
              Inl e \<Rightarrow> Inl e
            | Inr (Some pathResult) \<Rightarrow> Inr (Some pathResult)
            | Inr None \<Rightarrow> Inr (Some (NoneRel ''No relationship path could be found.'')))
       \<and> (\<exists>r. findRelationship person1Id person2Id allPeople = Inr (Some r)
              \<and> \<not> inLawTerm (description r))"
proof -
  note skip = findRelationship_inLaws_other[OF assms(6), of person1Id person1 allPeople
                "orEmpty (marriages person2)"]
  have eq: "findRelationship person1Id person2Id allPeople =
           (case findGenericPath person1 person2 allPeople of
              Inl e \<Rightarrow> Inl e
            | Inr (Some pathResult) \<Rightarrow> Inr (Some pathResult)
            | Inr None \<Rightarrow> Inr (Some (NoneRel ''No relationship path could be found.'')))"
    using assms skip by (simp add: findRelationship_def)
  have "\<exists>r. findRelationship person1Id person2Id allPeople = Inr (Some r)
              \<and> last (description r) = CHR ''.''"
  proof (cases "findGenericPath person1 person2 allPeople")
    case (Inl e)
    with findGenericPath_connected[OF assms(1), of person2] show ?thesis by blast
  next
    case (Inr res)
    show ?thesis
    proof (cases res)
      case None
      with Inr eq show ?thesis by simp
    next
      case (Some r)
      with Inr findGenericPath_kind[of person1 person2 allPeople r]
      obtain path where "r = PathRel (generatePathDescription path) path" by auto
      with Some Inr eq show ?thesis by (simp add: generatePathDescription_last)
    qed
  qed
  then obtain r where r: "findRelationship person1Id person2Id allPeople = Inr (Some r)"
    and dot: "last (description r) = CHR ''.''" by blast
  have "\<not> inLawTerm (description r)"
  proof
    assume "inLawTerm (description r)"
    then have "last (description r) = CHR '')''" by (rule inLawTerm_last)
    with dot show False by simp
  qed
  with r have "\<exists>r. findRelationship person1Id person2Id allPeople = Inr (Some r)
              \<and> \<not> inLawTerm (description r)" by blast
  with skip eq show ?thesis by blast
qed

theorem other_gender_skips_in_law_witness:
  "findLcaAndPaths ''g'' ''s'' inLawFamily =
     Some \<lparr>lca = inlaw_g, path1 = [inlaw_g], path2 = [inlaw_s, inlaw_g]\<rparr>
   \<and> marriedTo inlaw_x ''s''
   \<and> findRelationship ''g'' ''x'' inLawFamily =
     Inr (Some (PathRel ''g is the father of s, who is the husband of x.''
                  [inlaw_g, inlaw_s, inlaw_x]))"
proof -
  have l: "getPersonById ''g'' inLawFamily = Some inlaw_g"
    "getPersonById ''x'' inLawFamily = Some inlaw_x"
    by (simp_all add: inlaw_simps)
  have g: "gender inlaw_x = Other" "\<not> marriedTo inlaw_g ''x''" "marriedTo inlaw_x ''s''"
    by (simp_all add: inlaw_simps marriedTo_def)
  from other_gender_skips_in_law[OF l _ _ _ g(1,2) inlaw_lca(1)]
  have "findRelationship ''g'' ''x'' inLawFamily =
           (case findGenericPath inlaw_g inlaw_x inLawFamily of
              Inl e \<Rightarrow> Inl e
            | Inr (Some pathResult) \<Rightarrow> Inr (Some pathResult)
            | Inr None \<Rightarrow> Inr (Some (NoneRel ''No relationship path could be found.'')))"
    by simp
  with inlaw_generic_path inlaw_lca(2) g(3) show ?thesis by simp
qed

end
